theory Spec2Isabelle
  imports Complex_Main
begin

section \<open>JavaScript values\<close>

subsection \<open>Numbers\<close>

text \<open>
  A JavaScript number is a double: NaN, one of the two infinities, or a finite value,
  which is carried by the real it denotes. Comparison, \<open>Math.min\<close>, \<open>Math.max\<close>, \<open>Math.abs\<close>
  and negation are exact on doubles. The result of an addition, a subtraction, a
  multiplication or a division of finite values is the exact result rounded to the
  nearest double, ties to even, and to an infinity when it overflows (\<open>to_double\<close>); the
  special values follow IEEE 754. The two zeros are one value (no operation modelled
  here divides by a coordinate).
\<close>

datatype num = NaN | NInf | Fin real | PInf

fun num_le :: "num \<Rightarrow> num \<Rightarrow> bool" where
  "num_le NaN y = False"
| "num_le NInf y = (y \<noteq> NaN)"
| "num_le (Fin a) y = (case y of Fin b \<Rightarrow> a \<le> b | PInf \<Rightarrow> True | _ \<Rightarrow> False)"
| "num_le PInf y = (y = PInf)"

fun num_lt :: "num \<Rightarrow> num \<Rightarrow> bool" where
  "num_lt NaN y = False"
| "num_lt NInf y = (y \<noteq> NaN \<and> y \<noteq> NInf)"
| "num_lt (Fin a) y = (case y of Fin b \<Rightarrow> a < b | PInf \<Rightarrow> True | _ \<Rightarrow> False)"
| "num_lt PInf y = False"

text \<open>\<open>a >= b\<close> and \<open>a > b\<close> of the source are \<open>num_le b a\<close> and \<open>num_lt b a\<close>: all four
  comparisons are false as soon as one side is NaN.\<close>

definition num_ge :: "num \<Rightarrow> num \<Rightarrow> bool" where
  "num_ge a b = num_le b a"

definition num_gt :: "num \<Rightarrow> num \<Rightarrow> bool" where
  "num_gt a b = num_lt b a"

text \<open>\<open>Math.min\<close> and \<open>Math.max\<close> of two arguments: NaN as soon as one argument is NaN.\<close>

definition Math_min :: "num \<Rightarrow> num \<Rightarrow> num" where
  "Math_min a b = (if a = NaN \<or> b = NaN then NaN else if num_le a b then a else b)"

definition Math_max :: "num \<Rightarrow> num \<Rightarrow> num" where
  "Math_max a b = (if a = NaN \<or> b = NaN then NaN else if num_le a b then b else a)"

fun Math_abs :: "num \<Rightarrow> num" where
  "Math_abs NaN = NaN"
| "Math_abs NInf = PInf"
| "Math_abs (Fin a) = Fin \<bar>a\<bar>"
| "Math_abs PInf = PInf"

fun num_neg :: "num \<Rightarrow> num" where
  "num_neg NaN = NaN"
| "num_neg NInf = PInf"
| "num_neg (Fin a) = Fin (- a)"
| "num_neg PInf = NInf"

text \<open>Rounding a real to the nearest integer, halves to the even one.\<close>

definition round_even :: "real \<Rightarrow> int" where
  "round_even x =
     (let f = \<lfloor>x\<rfloor>; d = x - of_int f
      in if d < 1 / 2 then f else if 1 / 2 < d then f + 1 else if even f then f else f + 1)"

text \<open>
  The double nearest to a real \<open>r\<close> (binary64, round to nearest, ties to even). With
  \<open>2 ^ k \<le> |r| < 2 ^ (k + 1)\<close>, the doubles around \<open>r\<close> are the multiples of
  \<open>2 ^ (k - 52)\<close>, and of \<open>2 ^ (- 1074)\<close> in the subnormal range; \<open>|r|\<close> is rounded to the
  nearest multiple, and a result of \<open>2 ^ 1024\<close> or more is an infinity.
\<close>

definition to_double :: "real \<Rightarrow> num" where
  "to_double r =
     (if r = 0 then Fin 0
      else let k = \<lfloor>log 2 \<bar>r\<bar>\<rfloor>;
               q = 2 powr of_int (max (k - 52) (- 1074));
               v = of_int (round_even (\<bar>r\<bar> / q)) * q
           in if 2 ^ 1024 \<le> v then (if 0 < r then PInf else NInf)
              else Fin (if 0 < r then v else - v))"

text \<open>A number is a double: a finite one is its own rounding.\<close>

fun is_double :: "num \<Rightarrow> bool" where
  "is_double (Fin r) = (to_double r = Fin r)"
| "is_double x = True"

fun num_add :: "num \<Rightarrow> num \<Rightarrow> num" where
  "num_add NaN y = NaN"
| "num_add NInf y = (if y = NaN \<or> y = PInf then NaN else NInf)"
| "num_add PInf y = (if y = NaN \<or> y = NInf then NaN else PInf)"
| "num_add (Fin a) y = (case y of Fin b \<Rightarrow> to_double (a + b) | _ \<Rightarrow> y)"

definition num_sub :: "num \<Rightarrow> num \<Rightarrow> num" where
  "num_sub a b = num_add a (num_neg b)"

text \<open>The product: an infinity times zero is NaN, otherwise the signs multiply.\<close>

definition num_sign_inf :: "bool \<Rightarrow> num" where
  "num_sign_inf positive = (if positive then PInf else NInf)"

fun num_mul :: "num \<Rightarrow> num \<Rightarrow> num" where
  "num_mul NaN y = NaN"
| "num_mul (Fin a) y =
     (case y of
        NaN \<Rightarrow> NaN
      | Fin b \<Rightarrow> to_double (a * b)
      | PInf \<Rightarrow> (if a = 0 then NaN else num_sign_inf (0 < a))
      | NInf \<Rightarrow> (if a = 0 then NaN else num_sign_inf (a < 0)))"
| "num_mul PInf y =
     (case y of
        NaN \<Rightarrow> NaN
      | Fin b \<Rightarrow> (if b = 0 then NaN else num_sign_inf (0 < b))
      | PInf \<Rightarrow> PInf
      | NInf \<Rightarrow> NInf)"
| "num_mul NInf y =
     (case y of
        NaN \<Rightarrow> NaN
      | Fin b \<Rightarrow> (if b = 0 then NaN else num_sign_inf (b < 0))
      | PInf \<Rightarrow> NInf
      | NInf \<Rightarrow> PInf)"

text \<open>\<open>x / 2\<close>, the only division of \<open>LatLngBounds.js\<close>.\<close>

fun num_half :: "num \<Rightarrow> num" where
  "num_half (Fin a) = to_double (a / 2)"
| "num_half x = x"

subsection \<open>Values and the heap\<close>

text \<open>
  Instances of \<open>LatLng\<close> and \<open>LatLngBounds\<close> live in a heap and are named by their
  address, since \<open>extend\<close> writes into them and both constructors may hand back their
  argument. Arrays and object literals are only read by the code and are values. An
  object literal is given by the four properties the code looks at (\<open>lat\<close>, \<open>lng\<close>,
  \<open>lon\<close>, \<open>alt\<close>), each present or not. Strings, functions and objects with conversion
  methods of their own are outside the model.
\<close>

type_synonym addr = nat

datatype val =
    Undefined
  | Null
  | Bool bool
  | Num num
  | Arr "val list"
  | Obj "val option" "val option" "val option" "val option"
  | PointRef addr
  | BoundsRef addr

record LatLng =
  lat :: num
  lng :: num
  alt :: "num option"

record LatLngBounds =
  southWest :: "addr option"
  northEast :: "addr option"

text \<open>The heap: the objects of each class by address, and the next free address of each.\<close>

record heap =
  points :: "addr \<Rightarrow> LatLng"
  rects :: "addr \<Rightarrow> LatLngBounds"
  next_point :: addr
  next_rect :: addr

definition empty_heap :: heap where
  "empty_heap =
     \<lparr>points = (\<lambda>_. \<lparr>lat = Fin 0, lng = Fin 0, alt = None\<rparr>),
      rects = (\<lambda>_. \<lparr>southWest = None, northEast = None\<rparr>),
      next_point = 0, next_rect = 0\<rparr>"

text \<open>The two errors the code can end with: the \<open>Error\<close> that the \<open>LatLng\<close> constructor
  throws (``Invalid LatLng object''), and the engine's \<open>TypeError\<close>.\<close>

datatype error = InvalidLatLng | TypeError

subsection \<open>Coercions and tests of the language\<close>

text \<open>Truthiness: \<open>undefined\<close>, \<open>null\<close>, \<open>false\<close>, NaN and zero are falsy.\<close>

fun truthy :: "val \<Rightarrow> bool" where
  "truthy Undefined = False"
| "truthy Null = False"
| "truthy (Bool b) = b"
| "truthy (Num n) = (n \<noteq> NaN \<and> n \<noteq> Fin 0)"
| "truthy v = True"

text \<open>\<open>typeof v === 'object'\<close>, which holds of \<open>null\<close> too.\<close>

fun typeof_object :: "val \<Rightarrow> bool" where
  "typeof_object Null = True"
| "typeof_object (Arr xs) = True"
| "typeof_object (Obj olat olng olon oalt) = True"
| "typeof_object (PointRef a) = True"
| "typeof_object (BoundsRef a) = True"
| "typeof_object v = False"

text \<open>
  Unary plus (\<open>ToNumber\<close>). An array converts through its string: the empty array is 0,
  a one-element array converts as its element does (\<open>undefined\<close> and \<open>null\<close> print as the
  empty string, hence 0), a longer one holds a comma and is NaN. Object literals and the
  two classes print as text that is no number.
\<close>

fun to_number :: "val \<Rightarrow> num" where
  "to_number Undefined = NaN"
| "to_number Null = Fin 0"
| "to_number (Bool b) = Fin (if b then 1 else 0)"
| "to_number (Num n) = n"
| "to_number (Arr []) = Fin 0"
| "to_number (Arr [x]) =
     (case x of
        Undefined \<Rightarrow> Fin 0
      | Null \<Rightarrow> Fin 0
      | Bool b \<Rightarrow> NaN
      | _ \<Rightarrow> to_number x)"
| "to_number (Arr (x # y # zs)) = NaN"
| "to_number (Obj olat olng olon oalt) = NaN"
| "to_number (PointRef a) = NaN"
| "to_number (BoundsRef a) = NaN"

text \<open>Reading a property of an object literal: \<open>undefined\<close> when it is not there.\<close>

definition get_prop :: "val option \<Rightarrow> val" where
  "get_prop f = (case f of None \<Rightarrow> Undefined | Some v \<Rightarrow> v)"

text \<open>\<open>xs[i]\<close> on an array: \<open>undefined\<close> past the end.\<close>

definition elem :: "val list \<Rightarrow> nat \<Rightarrow> val" where
  "elem xs i = (if i < length xs then xs ! i else Undefined)"

section \<open>LatLng\<close>

text \<open>
  \<open>LatLng.validate\<close>. The first test applies \<open>'lat' in lat\<close> to every value whose
  \<open>typeof\<close> is \<open>'object'\<close>; on \<open>null\<close> the \<open>in\<close> operator throws a \<open>TypeError\<close>. An array
  and a \<open>LatLngBounds\<close> have no \<open>lat\<close> property.
\<close>

fun validate :: "val \<Rightarrow> val \<Rightarrow> val \<Rightarrow> error + bool" where
  "validate (PointRef a) lngv altv = Inr True"
| "validate Null lngv altv = Inl TypeError"
| "validate (Obj (Some v) olng olon oalt) lngv altv = Inr True"
| "validate (Arr xs) lngv altv =
     (if \<not> typeof_object (elem xs 0) then Inr (length xs = 3 \<or> length xs = 2)
      else Inr (truthy lngv \<or> lngv = Num (Fin 0)))"
| "validate latv lngv altv =
     Inr ((truthy latv \<or> latv = Num (Fin 0)) \<and> (truthy lngv \<or> lngv = Num (Fin 0)))"

text \<open>Storing a new \<open>LatLng\<close>: the assignments \<open>this.lat = +_lat\<close>, \<open>this.lng = +_lng\<close> and,
  when \<open>_alt\<close> is not \<open>undefined\<close>, \<open>this.alt = +_alt\<close>.\<close>

definition alloc_LatLng :: "val \<Rightarrow> val \<Rightarrow> val \<Rightarrow> heap \<Rightarrow> (error + addr) \<times> heap" where
  "alloc_LatLng latv lngv altv h =
     (let a = next_point h;
          p = \<lparr>lat = to_number latv, lng = to_number lngv,
               alt = (if altv \<noteq> Undefined then Some (to_number altv) else None)\<rparr>
      in (Inr a, h\<lparr>points := (points h)(a := p), next_point := Suc a\<rparr>))"

text \<open>
  The constructor \<open>new LatLng(lat, lng, alt)\<close>. It returns the address of the object it
  hands back: the argument itself when that is a \<open>LatLng\<close>, a new object otherwise. A
  throw leaves the heap as it was (the object under construction is dropped).
\<close>

definition new_LatLng :: "val \<Rightarrow> val \<Rightarrow> val \<Rightarrow> heap \<Rightarrow> (error + addr) \<times> heap" where
  "new_LatLng latv lngv altv h =
     (case validate latv lngv altv of
        Inl e \<Rightarrow> (Inl e, h)
      | Inr False \<Rightarrow> (Inl InvalidLatLng, h)
      | Inr True \<Rightarrow>
          (case latv of
             PointRef a \<Rightarrow> (Inr a, h)
           | Arr xs \<Rightarrow>
               if typeof_object (elem xs 0) then (Inl InvalidLatLng, h)
               else if length xs = 3 then alloc_LatLng (elem xs 0) (elem xs 1) (elem xs 2) h
               else if length xs = 2 then alloc_LatLng (elem xs 0) (elem xs 1) Undefined h
               else (Inl InvalidLatLng, h)
           | Obj (Some v) olng olon oalt \<Rightarrow>
               alloc_LatLng v (if olng \<noteq> None then get_prop olng else get_prop olon) (get_prop oalt) h
           | _ \<Rightarrow> alloc_LatLng latv lngv altv h))"

section \<open>LatLngBounds\<close>

subsection \<open>Reading and writing fields\<close>

text \<open>\<open>c.lat\<close> and \<open>c.lng\<close> on a corner variable, which holds a \<open>LatLng\<close> or \<open>undefined\<close>:
  reading a property of \<open>undefined\<close> throws a \<open>TypeError\<close>.\<close>

definition get_lat :: "heap \<Rightarrow> addr option \<Rightarrow> error + num" where
  "get_lat h c = (case c of None \<Rightarrow> Inl TypeError | Some a \<Rightarrow> Inr (lat (points h a)))"

definition get_lng :: "heap \<Rightarrow> addr option \<Rightarrow> error + num" where
  "get_lng h c = (case c of None \<Rightarrow> Inl TypeError | Some a \<Rightarrow> Inr (lng (points h a)))"

definition set_lat :: "addr \<Rightarrow> num \<Rightarrow> heap \<Rightarrow> heap" where
  "set_lat a x h = h\<lparr>points := (points h)(a := (points h a)\<lparr>lat := x\<rparr>)\<rparr>"

definition set_lng :: "addr \<Rightarrow> num \<Rightarrow> heap \<Rightarrow> heap" where
  "set_lng a x h = h\<lparr>points := (points h)(a := (points h a)\<lparr>lng := x\<rparr>)\<rparr>"

definition set_southWest :: "addr \<Rightarrow> addr option \<Rightarrow> heap \<Rightarrow> heap" where
  "set_southWest this c h = h\<lparr>rects := (rects h)(this := (rects h this)\<lparr>southWest := c\<rparr>)\<rparr>"

definition set_northEast :: "addr \<Rightarrow> addr option \<Rightarrow> heap \<Rightarrow> heap" where
  "set_northEast this c h = h\<lparr>rects := (rects h)(this := (rects h this)\<lparr>northEast := c\<rparr>)\<rparr>"

text \<open>A new \<open>LatLngBounds\<close> starts with both corners \<open>undefined\<close>.\<close>

definition alloc_LatLngBounds :: "heap \<Rightarrow> addr \<times> heap" where
  "alloc_LatLngBounds h =
     (let b = next_rect h
      in (b, h\<lparr>rects := (rects h)(b := \<lparr>southWest = None, northEast = None\<rparr>),
               next_rect := Suc b\<rparr>))"

subsection \<open>extend and the constructor\<close>

text \<open>
  The last part of \<open>extend\<close>, once \<open>sw2\<close> and \<open>ne2\<close> are known. With both corners unset it
  stores two new points, the second after the first is assigned; otherwise it writes
  the four coordinates one after the other, each read seeing the writes before it.
\<close>

definition extend_corners :: "addr \<Rightarrow> addr \<Rightarrow> addr \<Rightarrow> heap \<Rightarrow> (error + unit) \<times> heap" where
  "extend_corners this sw2 ne2 h =
     (case (southWest (rects h this), northEast (rects h this)) of
        (None, None) \<Rightarrow>
          (case new_LatLng (Num (lat (points h sw2))) (Num (lng (points h sw2))) Undefined h of
             (Inl e, h1) \<Rightarrow> (Inl e, h1)
           | (Inr a, h1) \<Rightarrow>
               (let h2 = set_southWest this (Some a) h1
                in case new_LatLng (Num (lat (points h2 ne2))) (Num (lng (points h2 ne2)))
                          Undefined h2 of
                     (Inl e, h3) \<Rightarrow> (Inl e, h3)
                   | (Inr c, h3) \<Rightarrow> (Inr (), set_northEast this (Some c) h3)))
      | (None, Some ne) \<Rightarrow> (Inl TypeError, h)
      | (Some sw, ne_opt) \<Rightarrow>
          (let h1 = set_lat sw (Math_min (lat (points h sw2)) (lat (points h sw))) h;
               h2 = set_lng sw (Math_min (lng (points h1 sw2)) (lng (points h1 sw))) h1
           in case ne_opt of
                None \<Rightarrow> (Inl TypeError, h2)
              | Some ne \<Rightarrow>
                  (let h3 = set_lat ne (Math_max (lat (points h2 ne2)) (lat (points h2 ne))) h2;
                       h4 = set_lng ne (Math_max (lng (points h3 ne2)) (lng (points h3 ne))) h3
                   in (Inr (), h4))))"

text \<open>The branch \<open>obj instanceof LatLngBounds\<close> of \<open>extend\<close>: nothing happens when a corner
  of \<open>obj\<close> is unset.\<close>

definition extend_LatLngBounds :: "addr \<Rightarrow> addr \<Rightarrow> heap \<Rightarrow> (error + unit) \<times> heap" where
  "extend_LatLngBounds this b h =
     (case (southWest (rects h b), northEast (rects h b)) of
        (Some sw2, Some ne2) \<Rightarrow> extend_corners this sw2 ne2 h
      | _ \<Rightarrow> (Inr (), h))"

text \<open>
  \<open>extend\<close>, the constructor and its loop \<open>for (const latlng of latlngs) this.extend(latlng)\<close>
  call each other. \<open>extend\<close> returns \<open>this\<close>, which the model leaves out. In the last
  branch of \<open>extend\<close> the calls \<open>this.extend(new LatLng(obj))\<close> and
  \<open>this.extend(new LatLngBounds(obj))\<close> re-enter \<open>extend\<close> with an instance, that is, in
  its first or second branch. Only an array can be iterated among the values of the
  model; the constructor's object is created when the loop is reached.
\<close>

function extend :: "addr \<Rightarrow> val \<Rightarrow> heap \<Rightarrow> (error + unit) \<times> heap"
  and new_LatLngBounds :: "val \<Rightarrow> val \<Rightarrow> heap \<Rightarrow> (error + addr) \<times> heap"
  and extend_each :: "addr \<Rightarrow> val list \<Rightarrow> heap \<Rightarrow> (error + unit) \<times> heap"
where
  "extend this obj h =
     (case obj of
        PointRef p \<Rightarrow> extend_corners this p p h
      | BoundsRef b \<Rightarrow> extend_LatLngBounds this b h
      | _ \<Rightarrow>
          if \<not> truthy obj then (Inr (), h)
          else (case validate obj Undefined Undefined of
                  Inl e \<Rightarrow> (Inl e, h)
                | Inr True \<Rightarrow>
                    (case new_LatLng obj Undefined Undefined h of
                       (Inl e, h1) \<Rightarrow> (Inl e, h1)
                     | (Inr p, h1) \<Rightarrow> extend_corners this p p h1)
                | Inr False \<Rightarrow>
                    (case new_LatLngBounds obj Undefined h of
                       (Inl e, h1) \<Rightarrow> (Inl e, h1)
                     | (Inr b, h1) \<Rightarrow> extend_LatLngBounds this b h1)))"
| "new_LatLngBounds corner1 corner2 h =
     (if \<not> truthy corner1 then (case alloc_LatLngBounds h of (this, h1) \<Rightarrow> (Inr this, h1))
      else case corner1 of
             BoundsRef b \<Rightarrow> (Inr b, h)
           | _ \<Rightarrow>
               if truthy corner2
               then (case alloc_LatLngBounds h of
                       (this, h1) \<Rightarrow>
                         (case extend_each this [corner1, corner2] h1 of
                            (Inl e, h2) \<Rightarrow> (Inl e, h2)
                          | (Inr u, h2) \<Rightarrow> (Inr this, h2)))
               else (case corner1 of
                       Arr xs \<Rightarrow>
                         (case alloc_LatLngBounds h of
                            (this, h1) \<Rightarrow>
                              (case extend_each this xs h1 of
                                 (Inl e, h2) \<Rightarrow> (Inl e, h2)
                               | (Inr u, h2) \<Rightarrow> (Inr this, h2)))
                     | _ \<Rightarrow> (Inl TypeError, h)))"
| "extend_each this [] h = (Inr (), h)"
| "extend_each this (x # xs) h =
     (case extend this x h of
        (Inl e, h1) \<Rightarrow> (Inl e, h1)
      | (Inr u, h1) \<Rightarrow> extend_each this xs h1)"
  by pat_completeness auto
termination
proof -
  have scaled: "size_list (\<lambda>x. Suc (4 * size x)) xs < 3 + (4 * size_list size xs + k)"
    for xs :: "val list" and k :: nat
    by (induction xs) auto
  show ?thesis
    by (relation "measure (\<lambda>c. case c of
            Inl (this, obj, h) \<Rightarrow> 4 * size obj + 1
          | Inr (Inl (corner1, corner2, h)) \<Rightarrow>
              4 * size corner1 + 4 * size corner2 + (if truthy corner2 then 8 else 0)
          | Inr (Inr (this, xs, h)) \<Rightarrow> size_list (\<lambda>x. 4 * size x + 1) xs + 1)")
       (auto simp: scaled)
qed

declare extend.simps [simp del] new_LatLngBounds.simps [simp del]

subsection \<open>Queries\<close>

text \<open>\<open>a && b\<close> on comparisons that may throw: \<open>b\<close> is evaluated only when \<open>a\<close> is true.\<close>

definition and_also :: "error + bool \<Rightarrow> error + bool \<Rightarrow> error + bool" where
  "and_also x y = (case x of Inl e \<Rightarrow> Inl e | Inr False \<Rightarrow> Inr False | Inr True \<Rightarrow> y)"

text \<open>A comparison of two property reads, the left one first.\<close>

definition compare :: "(num \<Rightarrow> num \<Rightarrow> bool) \<Rightarrow> error + num \<Rightarrow> error + num \<Rightarrow> error + bool" where
  "compare rel x y =
     (case x of
        Inl e \<Rightarrow> Inl e
      | Inr a \<Rightarrow> (case y of Inl e \<Rightarrow> Inl e | Inr b \<Rightarrow> Inr (rel a b)))"

text \<open>Two \<open>const\<close> declarations, both evaluated, then their conjunction.\<close>

definition both :: "error + bool \<Rightarrow> error + bool \<Rightarrow> error + bool" where
  "both x y =
     (case x of
        Inl e \<Rightarrow> Inl e
      | Inr a \<Rightarrow> (case y of Inl e \<Rightarrow> Inl e | Inr b \<Rightarrow> Inr (a \<and> b)))"

definition getSouthWest :: "heap \<Rightarrow> addr \<Rightarrow> val" where
  "getSouthWest h this = (case southWest (rects h this) of None \<Rightarrow> Undefined | Some a \<Rightarrow> PointRef a)"

definition getNorthEast :: "heap \<Rightarrow> addr \<Rightarrow> val" where
  "getNorthEast h this = (case northEast (rects h this) of None \<Rightarrow> Undefined | Some a \<Rightarrow> PointRef a)"

definition getWest :: "heap \<Rightarrow> addr \<Rightarrow> error + num" where
  "getWest h this = get_lng h (southWest (rects h this))"

definition getSouth :: "heap \<Rightarrow> addr \<Rightarrow> error + num" where
  "getSouth h this = get_lat h (southWest (rects h this))"

definition getEast :: "heap \<Rightarrow> addr \<Rightarrow> error + num" where
  "getEast h this = get_lng h (northEast (rects h this))"

definition getNorth :: "heap \<Rightarrow> addr \<Rightarrow> error + num" where
  "getNorth h this = get_lat h (northEast (rects h this))"

definition getNorthWest :: "addr \<Rightarrow> heap \<Rightarrow> (error + addr) \<times> heap" where
  "getNorthWest this h =
     (case getNorth h this of
        Inl e \<Rightarrow> (Inl e, h)
      | Inr n \<Rightarrow>
          (case getWest h this of
             Inl e \<Rightarrow> (Inl e, h)
           | Inr w \<Rightarrow> new_LatLng (Num n) (Num w) Undefined h))"

definition getSouthEast :: "addr \<Rightarrow> heap \<Rightarrow> (error + addr) \<times> heap" where
  "getSouthEast this h =
     (case getSouth h this of
        Inl e \<Rightarrow> (Inl e, h)
      | Inr s \<Rightarrow>
          (case getEast h this of
             Inl e \<Rightarrow> (Inl e, h)
           | Inr e \<Rightarrow> new_LatLng (Num s) (Num e) Undefined h))"

definition getCenter :: "addr \<Rightarrow> heap \<Rightarrow> (error + addr) \<times> heap" where
  "getCenter this h =
     (case (southWest (rects h this), northEast (rects h this)) of
        (Some sw, Some ne) \<Rightarrow>
          new_LatLng (Num (num_half (num_add (lat (points h sw)) (lat (points h ne)))))
                     (Num (num_half (num_add (lng (points h sw)) (lng (points h ne)))))
                     Undefined h
      | _ \<Rightarrow> (Inl TypeError, h))"

text \<open>\<open>pad\<close>: the first read of \<open>sw.lat\<close> or \<open>ne.lat\<close> on an unset corner throws. The two new
  points are built left to right, then the bounds from them.\<close>

definition pad :: "addr \<Rightarrow> val \<Rightarrow> heap \<Rightarrow> (error + addr) \<times> heap" where
  "pad this bufferRatio h =
     (case (southWest (rects h this), northEast (rects h this)) of
        (Some sw, Some ne) \<Rightarrow>
          (let heightBuffer =
                 num_mul (Math_abs (num_sub (lat (points h sw)) (lat (points h ne))))
                         (to_number bufferRatio);
               widthBuffer =
                 num_mul (Math_abs (num_sub (lng (points h sw)) (lng (points h ne))))
                         (to_number bufferRatio)
           in case new_LatLng (Num (num_sub (lat (points h sw)) heightBuffer))
                              (Num (num_sub (lng (points h sw)) widthBuffer)) Undefined h of
                (Inl e, h1) \<Rightarrow> (Inl e, h1)
              | (Inr c1, h1) \<Rightarrow>
                  (case new_LatLng (Num (num_add (lat (points h1 ne)) heightBuffer))
                                   (Num (num_add (lng (points h1 ne)) widthBuffer)) Undefined h1 of
                     (Inl e, h2) \<Rightarrow> (Inl e, h2)
                   | (Inr c2, h2) \<Rightarrow> new_LatLngBounds (PointRef c1) (PointRef c2) h2))
      | _ \<Rightarrow> (Inl TypeError, h))"

text \<open>The test at the end of \<open>contains\<close>, on the corners \<open>sw2\<close>, \<open>ne2\<close> of the argument.\<close>

definition contains_corners :: "heap \<Rightarrow> addr \<Rightarrow> addr option \<Rightarrow> addr option \<Rightarrow> error + bool" where
  "contains_corners h this sw2 ne2 =
     (let sw = southWest (rects h this); ne = northEast (rects h this)
      in and_also (compare num_ge (get_lat h sw2) (get_lat h sw))
          (and_also (compare num_le (get_lat h ne2) (get_lat h ne))
            (and_also (compare num_ge (get_lng h sw2) (get_lng h sw))
                      (compare num_le (get_lng h ne2) (get_lng h ne)))))"

definition contains :: "addr \<Rightarrow> val \<Rightarrow> heap \<Rightarrow> (error + bool) \<times> heap" where
  "contains this obj h =
     (case validate obj Undefined Undefined of
        Inl e \<Rightarrow> (Inl e, h)
      | Inr True \<Rightarrow>
          (case new_LatLng obj Undefined Undefined h of
             (Inl e, h1) \<Rightarrow> (Inl e, h1)
           | (Inr p, h1) \<Rightarrow> (contains_corners h1 this (Some p) (Some p), h1))
      | Inr False \<Rightarrow>
          (case new_LatLngBounds obj Undefined h of
             (Inl e, h1) \<Rightarrow> (Inl e, h1)
           | (Inr b, h1) \<Rightarrow>
               (contains_corners h1 this (southWest (rects h1 b)) (northEast (rects h1 b)), h1)))"

definition intersects :: "addr \<Rightarrow> val \<Rightarrow> heap \<Rightarrow> (error + bool) \<times> heap" where
  "intersects this bounds h =
     (case new_LatLngBounds bounds Undefined h of
        (Inl e, h1) \<Rightarrow> (Inl e, h1)
      | (Inr b, h1) \<Rightarrow>
          (let sw = southWest (rects h1 this); ne = northEast (rects h1 this);
               sw2 = southWest (rects h1 b); ne2 = northEast (rects h1 b);
               latIntersects = and_also (compare num_ge (get_lat h1 ne2) (get_lat h1 sw))
                                        (compare num_le (get_lat h1 sw2) (get_lat h1 ne));
               lngIntersects = and_also (compare num_ge (get_lng h1 ne2) (get_lng h1 sw))
                                        (compare num_le (get_lng h1 sw2) (get_lng h1 ne))
           in (both latIntersects lngIntersects, h1)))"

definition overlaps :: "addr \<Rightarrow> val \<Rightarrow> heap \<Rightarrow> (error + bool) \<times> heap" where
  "overlaps this bounds h =
     (case new_LatLngBounds bounds Undefined h of
        (Inl e, h1) \<Rightarrow> (Inl e, h1)
      | (Inr b, h1) \<Rightarrow>
          (let sw = southWest (rects h1 this); ne = northEast (rects h1 this);
               sw2 = southWest (rects h1 b); ne2 = northEast (rects h1 b);
               latOverlaps = and_also (compare num_gt (get_lat h1 ne2) (get_lat h1 sw))
                                      (compare num_lt (get_lat h1 sw2) (get_lat h1 ne));
               lngOverlaps = and_also (compare num_gt (get_lng h1 ne2) (get_lng h1 sw))
                                      (compare num_lt (get_lng h1 sw2) (get_lng h1 ne))
           in (both latOverlaps lngOverlaps, h1)))"

text \<open>\<open>Array.prototype.join\<close> on strings.\<close>

fun join :: "string \<Rightarrow> string list \<Rightarrow> string" where
  "join sep [] = []"
| "join sep [x] = x"
| "join sep (x # y # ys) = x @ sep @ join sep (y # ys)"

text \<open>\<open>toBBoxString\<close>. How the engine prints a number (\<open>Number::toString\<close>) is the
  parameter \<open>show_num\<close>.\<close>

definition toBBoxString :: "(num \<Rightarrow> string) \<Rightarrow> heap \<Rightarrow> addr \<Rightarrow> error + string" where
  "toBBoxString show_num h this =
     (case getWest h this of
        Inl e \<Rightarrow> Inl e
      | Inr w \<Rightarrow>
          (case getSouth h this of
             Inl e \<Rightarrow> Inl e
           | Inr s \<Rightarrow>
               (case getEast h this of
                  Inl e \<Rightarrow> Inl e
                | Inr e \<Rightarrow>
                    (case getNorth h this of
                       Inl e \<Rightarrow> Inl e
                     | Inr n \<Rightarrow> Inr (join '','' (map show_num [w, s, e, n]))))))"

text \<open>\<open>maxMargin ?? 1.0E-9\<close>. The literal denotes the double nearest to \<open>10 ^ (- 9)\<close>.\<close>

definition margin_or_default :: "val \<Rightarrow> val" where
  "margin_or_default maxMargin =
     (if maxMargin = Undefined \<or> maxMargin = Null then Num (to_double (1 / 10 ^ 9))
      else maxMargin)"

text \<open>\<open>LatLng.equals\<close>; the comparison \<open><=\<close> converts its right side to a number.\<close>

definition LatLng_equals :: "addr \<Rightarrow> val \<Rightarrow> val \<Rightarrow> heap \<Rightarrow> (error + bool) \<times> heap" where
  "LatLng_equals this obj maxMargin h =
     (if \<not> truthy obj then (Inr False, h)
      else case new_LatLng obj Undefined Undefined h of
             (Inl e, h1) \<Rightarrow> (Inl e, h1)
           | (Inr q, h1) \<Rightarrow>
               (let margin =
                      Math_max (Math_abs (num_sub (lat (points h1 this)) (lat (points h1 q))))
                               (Math_abs (num_sub (lng (points h1 this)) (lng (points h1 q))))
                in (Inr (num_le margin (to_number (margin_or_default maxMargin))), h1)))"

text \<open>\<open>LatLngBounds.equals\<close>: calling \<open>equals\<close> on an unset corner throws.\<close>

definition LatLngBounds_equals :: "addr \<Rightarrow> val \<Rightarrow> val \<Rightarrow> heap \<Rightarrow> (error + bool) \<times> heap" where
  "LatLngBounds_equals this bounds maxMargin h =
     (if \<not> truthy bounds then (Inr False, h)
      else case new_LatLngBounds bounds Undefined h of
             (Inl e, h1) \<Rightarrow> (Inl e, h1)
           | (Inr b, h1) \<Rightarrow>
               (case southWest (rects h1 this) of
                  None \<Rightarrow> (Inl TypeError, h1)
                | Some sw \<Rightarrow>
                    (case LatLng_equals sw (getSouthWest h1 b) maxMargin h1 of
                       (Inl e, h2) \<Rightarrow> (Inl e, h2)
                     | (Inr False, h2) \<Rightarrow> (Inr False, h2)
                     | (Inr True, h2) \<Rightarrow>
                         (case northEast (rects h2 this) of
                            None \<Rightarrow> (Inl TypeError, h2)
                          | Some ne \<Rightarrow> LatLng_equals ne (getNorthEast h2 b) maxMargin h2))))"

definition isValid :: "heap \<Rightarrow> addr \<Rightarrow> bool" where
  "isValid h this = (southWest (rects h this) \<noteq> None \<and> northEast (rects h this) \<noteq> None)"

section \<open>Well-formed points and bounds\<close>

fun finite_num :: "num \<Rightarrow> bool" where
  "finite_num (Fin r) = True"
| "finite_num x = False"

text \<open>A point as the specification has it: a \<open>LatLng\<close> of the heap whose \<open>lat\<close> and \<open>lng\<close>
  are finite numbers.\<close>

definition valid_point :: "heap \<Rightarrow> addr \<Rightarrow> bool" where
  "valid_point h p =
     (p < next_point h \<and> finite_num (lat (points h p)) \<and> finite_num (lng (points h p)))"

text \<open>A \<open>LatLng\<close> of the heap whose \<open>lat\<close> and \<open>lng\<close> are not NaN; they may be infinite.\<close>

definition number_point :: "heap \<Rightarrow> addr \<Rightarrow> bool" where
  "number_point h p =
     (p < next_point h \<and> lat (points h p) \<noteq> NaN \<and> lng (points h p) \<noteq> NaN)"

text \<open>The two states of a \<open>LatLngBounds\<close>: no corner set, or both corners set and ordered
  on both axes.\<close>

definition empty_bounds :: "heap \<Rightarrow> addr \<Rightarrow> bool" where
  "empty_bounds h b = (southWest (rects h b) = None \<and> northEast (rects h b) = None)"

definition defined_bounds :: "heap \<Rightarrow> addr \<Rightarrow> bool" where
  "defined_bounds h b =
     (case (southWest (rects h b), northEast (rects h b)) of
        (Some sw, Some ne) \<Rightarrow>
          sw < next_point h \<and> ne < next_point h
          \<and> num_le (lat (points h sw)) (lat (points h ne))
          \<and> num_le (lng (points h sw)) (lng (points h ne))
      | _ \<Rightarrow> False)"

text \<open>A valid bounds as the specification has it: an object of the heap in the defined
  state whose corners are points with finite coordinates.\<close>

definition valid_bounds :: "heap \<Rightarrow> addr \<Rightarrow> bool" where
  "valid_bounds h b =
     (b < next_rect h \<and> defined_bounds h b
      \<and> (case (southWest (rects h b), northEast (rects h b)) of
            (Some sw, Some ne) \<Rightarrow> valid_point h sw \<and> valid_point h ne
          | _ \<Rightarrow> False))"


text \<open>
  The rectangles of two bounds have an intersection of zero area that is not empty. The
  intersection of two closed rectangles spans from the larger of the two souths to the
  smaller of the two norths, and from the larger of the two wests to the smaller of the
  two easts. It is not empty when each span has its lower end at or below its upper end,
  and it has zero area when one of the two spans is a single value.
\<close>

definition zero_area_intersection :: "heap \<Rightarrow> addr \<Rightarrow> addr \<Rightarrow> bool" where
  "zero_area_intersection h a b =
     (case (southWest (rects h a), northEast (rects h a),
            southWest (rects h b), northEast (rects h b)) of
        (Some sw, Some ne, Some sw2, Some ne2) \<Rightarrow>
          (let s = lat (points h sw); w = lng (points h sw);
               n = lat (points h ne); e = lng (points h ne);
               s2 = lat (points h sw2); w2 = lng (points h sw2);
               n2 = lat (points h ne2); e2 = lng (points h ne2)
           in num_le (Math_max s s2) (Math_min n n2) \<and> num_le (Math_max w w2) (Math_min e e2)
              \<and> (Math_max s s2 = Math_min n n2 \<or> Math_max w w2 = Math_min e e2))
      | _ \<Rightarrow> False)"

text \<open>The four coordinates of the corners of a bounds are doubles, as every number that a
  program stores is.\<close>

definition double_bounds :: "heap \<Rightarrow> addr \<Rightarrow> bool" where
  "double_bounds h b =
     (case (southWest (rects h b), northEast (rects h b)) of
        (Some sw, Some ne) \<Rightarrow>
          is_double (lat (points h sw)) \<and> is_double (lng (points h sw))
          \<and> is_double (lat (points h ne)) \<and> is_double (lng (points h ne))
      | _ \<Rightarrow> False)"

text \<open>The two differences \<open>sw.lat - ne.lat\<close> and \<open>sw.lng - ne.lng\<close> that \<open>pad\<close> computes are
  finite: the subtractions do not overflow.\<close>

definition finite_extent :: "heap \<Rightarrow> addr \<Rightarrow> bool" where
  "finite_extent h b =
     (case (southWest (rects h b), northEast (rects h b)) of
        (Some sw, Some ne) \<Rightarrow>
          finite_num (num_sub (lat (points h sw)) (lat (points h ne)))
          \<and> finite_num (num_sub (lng (points h sw)) (lng (points h ne)))
      | _ \<Rightarrow> False)"

text \<open>Every object that exists in \<open>h\<close> is the same in \<open>h'\<close>.\<close>

definition unchanged :: "heap \<Rightarrow> heap \<Rightarrow> bool" where
  "unchanged h h' =
     ((\<forall>a < next_point h. points h' a = points h a)
      \<and> (\<forall>b < next_rect h. rects h' b = rects h b)
      \<and> next_point h \<le> next_point h' \<and> next_rect h \<le> next_rect h')"

text \<open>
  What a call that works on the bounds \<open>this\<close> leaves alone, from \<open>h\<close> to \<open>h'\<close>: every other
  bounds that exists in \<open>h\<close>, and a corner of \<open>this\<close> once it is set (the corner stays the
  same object).
\<close>

definition rects_frame :: "addr \<Rightarrow> heap \<Rightarrow> heap \<Rightarrow> bool" where
  "rects_frame this h h' =
     ((\<forall>b < next_rect h. b \<noteq> this \<longrightarrow> rects h' b = rects h b)
      \<and> next_rect h \<le> next_rect h'
      \<and> (\<forall>c. southWest (rects h this) = Some c \<longrightarrow> southWest (rects h' this) = Some c)
      \<and> (\<forall>c. northEast (rects h this) = Some c \<longrightarrow> northEast (rects h' this) = Some c))"

text \<open>Every bounds that exists in \<open>h\<close> is the same in \<open>h'\<close>.\<close>

definition rects_unchanged :: "heap \<Rightarrow> heap \<Rightarrow> bool" where
  "rects_unchanged h h' =
     ((\<forall>b < next_rect h. rects h' b = rects h b) \<and> next_rect h \<le> next_rect h')"

text \<open>
  A bounds whose corners, if it has any, were made after the first \<open>n0\<close> points of the
  heap: it is empty, or its corners are two different points, with no NaN, at addresses
  from \<open>n0\<close> on. This is what \<open>extend\<close> makes of an empty bounds.
\<close>

definition grown_from :: "addr \<Rightarrow> heap \<Rightarrow> addr \<Rightarrow> bool" where
  "grown_from n0 h b =
     (n0 \<le> next_point h
      \<and> (case (southWest (rects h b), northEast (rects h b)) of
            (None, None) \<Rightarrow> True
          | (Some sw, Some ne) \<Rightarrow>
              sw \<noteq> ne \<and> n0 \<le> sw \<and> n0 \<le> ne \<and> number_point h sw \<and> number_point h ne
          | _ \<Rightarrow> False))"

text \<open>The point \<open>q\<close> passes the test of \<open>contains\<close> on the bounds \<open>b\<close>.\<close>

definition inside :: "heap \<Rightarrow> addr \<Rightarrow> addr \<Rightarrow> bool" where
  "inside h b q = (contains_corners h b (Some q) (Some q) = Inr True)"

text \<open>The heap after \<open>new LatLng([50, 30])\<close>, from the empty heap: one point, at address 0.\<close>

definition point_50_30 :: heap where
  "point_50_30 = snd (new_LatLng (Arr [Num (Fin 50), Num (Fin 30)]) Undefined Undefined empty_heap)"

text \<open>The heap after \<open>new LatLngBounds([Infinity, 0], [Infinity, 1])\<close>, from the empty heap:
  the bounds is at address 0.\<close>

definition infinite_strip :: heap where
  "infinite_strip =
     snd (new_LatLngBounds (Arr [Num PInf, Num (Fin 0)]) (Arr [Num PInf, Num (Fin 1)]) empty_heap)"

text \<open>The heap after \<open>new LatLng(5, 7)\<close> and then \<open>new LatLngBounds()\<close>, from the empty
  heap: a point and an empty bounds, both at address 0.\<close>

definition point_and_empty_bounds :: heap where
  "point_and_empty_bounds =
     snd (new_LatLngBounds Undefined Undefined
       (snd (new_LatLng (Num (Fin 5)) (Num (Fin 7)) Undefined empty_heap)))"

text \<open>The heap after \<open>new LatLng(1, 2)\<close>, \<open>new LatLng(-3, 8)\<close>, \<open>new LatLng(4, -5)\<close> and
  \<open>new LatLngBounds()\<close>, from the empty heap: three points at the addresses 0, 1, 2 and an
  empty bounds at address 0.\<close>

definition three_points :: heap where
  "three_points =
     snd (new_LatLngBounds Undefined Undefined
       (snd (new_LatLng (Num (Fin 4)) (Num (Fin (- 5))) Undefined
         (snd (new_LatLng (Num (Fin (- 3))) (Num (Fin 8)) Undefined
           (snd (new_LatLng (Num (Fin 1)) (Num (Fin 2)) Undefined empty_heap)))))))"

text \<open>The heap after \<open>new LatLngBounds([0, 0], [10, 10])\<close> and then
  \<open>new LatLngBounds([10, 10], [20, 20])\<close>, from the empty heap: the two bounds are at the
  addresses 0 and 1.\<close>

definition two_squares :: heap where
  "two_squares =
     snd (new_LatLngBounds (Arr [Num (Fin 10), Num (Fin 10)]) (Arr [Num (Fin 20), Num (Fin 20)])
       (snd (new_LatLngBounds (Arr [Num (Fin 0), Num (Fin 0)]) (Arr [Num (Fin 10), Num (Fin 10)])
          empty_heap)))"


text \<open>The heap after \<open>new LatLngBounds([-(2 ** 1023), 0], [2 ** 1023, 1])\<close>, from the empty
  heap: the bounds is at address 0.\<close>

definition wide_strip :: heap where
  "wide_strip =
     snd (new_LatLngBounds (Arr [Num (Fin (- (2 ^ 1023))), Num (Fin 0)])
                           (Arr [Num (Fin (2 ^ 1023)), Num (Fin 1)]) empty_heap)"

text \<open>The heap after \<open>new LatLng(1, 0)\<close>, from the empty heap: one point, at address 0.\<close>

definition point_1_0 :: heap where
  "point_1_0 = snd (new_LatLng (Num (Fin 1)) (Num (Fin 0)) Undefined empty_heap)"

section \<open>Arithmetic and order of numbers\<close>

lemma Math_min_Fin [simp]: "Math_min (Fin a) (Fin b) = Fin (min a b)"
  by (simp add: Math_min_def min_def)

lemma Math_max_Fin [simp]: "Math_max (Fin a) (Fin b) = Fin (max a b)"
  by (simp add: Math_max_def max_def)

lemma num_sub_Fin [simp]: "num_sub (Fin a) (Fin b) = to_double (a - b)"
  by (simp add: num_sub_def)

lemma num_ge_Fin [simp]: "num_ge (Fin a) (Fin b) = (b \<le> a)"
  by (simp add: num_ge_def)

lemma num_gt_Fin [simp]: "num_gt (Fin a) (Fin b) = (b < a)"
  by (simp add: num_gt_def)

lemma finite_num_iff: "finite_num x \<longleftrightarrow> (\<exists>r. x = Fin r)"
  by (cases x) auto

subsection \<open>Rounding to a double\<close>

lemma floor_log2:
  assumes "2 powr of_int k \<le> x" and "x < 2 powr of_int (k + 1)"
  shows "\<lfloor>log 2 x\<rfloor> = k"
proof -
  have "(0::real) < 2 powr of_int k" by simp
  then have pos: "0 < x" using assms(1) by linarith
  have "of_int k \<le> log 2 x" using assms(1) pos by (simp add: le_log_iff)
  moreover have "log 2 x < of_int (k + 1)" using assms(2) pos by (simp add: log_less_iff)
  ultimately show ?thesis by (simp add: floor_eq_iff)
qed

text \<open>The rounding of \<open>r\<close>, once the power of two below \<open>|r|\<close> is known.\<close>

lemma to_double_eval:
  assumes "2 powr of_int k \<le> \<bar>r\<bar>" and "\<bar>r\<bar> < 2 powr of_int (k + 1)"
  shows "to_double r =
     (let q = 2 powr of_int (max (k - 52) (- 1074));
          v = of_int (round_even (\<bar>r\<bar> / q)) * q
      in if 2 ^ 1024 \<le> v then (if 0 < r then PInf else NInf)
         else Fin (if 0 < r then v else - v))"
proof -
  have "(0::real) < 2 powr of_int k" by simp
  then have "r \<noteq> 0" using assms(1) by linarith
  then show ?thesis
    by (simp add: to_double_def floor_log2 [OF assms] Let_def)
qed

lemma to_double_zero [simp]: "to_double 0 = Fin 0"
  by (simp add: to_double_def)

lemma to_double_number: "to_double r \<noteq> NaN"
  by (simp add: to_double_def Let_def)

lemma to_double_neg: "to_double (- r) = num_neg (to_double r)"
  by (simp add: to_double_def Let_def)

lemma round_even_of_int [simp]: "round_even (of_int n) = n"
  by (simp add: round_even_def)

lemma round_even_le:
  assumes "x \<le> of_int M"
  shows "round_even x \<le> M"
proof (cases "x = of_int M")
  case True
  then show ?thesis by simp
next
  case False
  then have "x < of_int M" using assms by simp
  then have "\<lfloor>x\<rfloor> < M" by (simp add: floor_less_iff)
  moreover have "\<lfloor>x\<rfloor> \<le> M" using calculation by simp
  ultimately show ?thesis by (simp add: round_even_def Let_def)
qed

lemma round_even_nonneg:
  assumes "0 \<le> x"
  shows "0 \<le> round_even x"
proof -
  have "0 \<le> \<lfloor>x\<rfloor>" using assms by simp
  then show ?thesis by (simp add: round_even_def Let_def)
qed

text \<open>A positive double is a whole multiple of the unit of its binade, and is below
  \<open>2 ^ 1024\<close>.\<close>

lemma double_multiple:
  assumes "to_double m = Fin m" and "0 < m"
  shows "\<exists>N. m = of_int N * 2 powr of_int (max (\<lfloor>log 2 m\<rfloor> - 52) (- 1074))"
    and "m < 2 ^ 1024"
proof -
  define q :: real where "q = 2 powr of_int (max (\<lfloor>log 2 m\<rfloor> - 52) (- 1074))"
  define v where "v = of_int (round_even (m / q)) * q"
  have eq: "to_double m = (if 2 ^ 1024 \<le> v then PInf else Fin v)"
    using assms(2) by (simp add: to_double_def Let_def q_def v_def)
  from assms(1) eq have "\<not> 2 ^ 1024 \<le> v" and "v = m"
    by (auto split: if_splits)
  then show "m < 2 ^ 1024" by simp
  from \<open>v = m\<close> show "\<exists>N. m = of_int N * 2 powr of_int (max (\<lfloor>log 2 m\<rfloor> - 52) (- 1074))"
    unfolding v_def q_def by metis
qed

text \<open>Rounding does not cross a double: what is at most the double \<open>m\<close> rounds to at most
  \<open>m\<close>.\<close>

lemma to_double_below:
  assumes "0 \<le> x" and "x \<le> m" and "to_double m = Fin m"
  shows "\<exists>v. to_double x = Fin v \<and> 0 \<le> v \<and> v \<le> m"
proof (cases "x = 0")
  case True
  then show ?thesis using assms by simp
next
  case False
  then have x: "0 < x" using assms(1) by simp
  then have m: "0 < m" using assms(2) by simp
  define ex where "ex = max (\<lfloor>log 2 x\<rfloor> - 52) (- 1074)"
  define em where "em = max (\<lfloor>log 2 m\<rfloor> - 52) (- 1074)"
  define q :: real where "q = 2 powr of_int ex"
  have q: "0 < q" by (simp add: q_def)
  have "log 2 x \<le> log 2 m" using x assms(2) by simp
  then have "\<lfloor>log 2 x\<rfloor> \<le> \<lfloor>log 2 m\<rfloor>" by (rule floor_mono)
  then have le: "ex \<le> em" by (simp add: ex_def em_def)
  obtain N where N: "m = of_int N * 2 powr of_int em" and fin: "m < 2 ^ 1024"
    using double_multiple [OF assms(3) m] unfolding em_def by blast
  have "(2::real) powr of_int em = 2 powr (of_int ex + of_int (em - ex))" by simp
  also have "\<dots> = q * 2 powr of_int (em - ex)" unfolding q_def by (rule powr_add)
  also have "2 powr of_int (em - ex) = (2::real) ^ nat (em - ex)"
    using le by (simp add: powr_realpow [symmetric])
  finally have "m = of_int (N * 2 ^ nat (em - ex)) * q"
    using N by simp
  then obtain M where M: "m = of_int M * q" by blast
  have "x / q \<le> of_int M" using assms(2) q M by (simp add: field_simps)
  then have r: "round_even (x / q) \<le> M" by (rule round_even_le)
  have r0: "0 \<le> round_even (x / q)" using x q by (intro round_even_nonneg) simp
  define v where "v = of_int (round_even (x / q)) * q"
  have v: "0 \<le> v" "v \<le> m"
    using r r0 q unfolding v_def M by (simp_all add: mult_right_mono)
  have "to_double x = Fin v"
    using x v fin by (simp add: to_double_def Let_def q_def ex_def v_def)
  then show ?thesis using v by blast
qed

lemma to_double_abs_le:
  assumes "\<bar>x\<bar> \<le> m" and "to_double m = Fin m"
  shows "num_le (Math_abs (to_double x)) (Fin m)"
proof (cases "0 \<le> x")
  case True
  then obtain v where "to_double x = Fin v" "0 \<le> v" "v \<le> m"
    using to_double_below [OF _ _ assms(2), of x] assms(1) by auto
  then show ?thesis by simp
next
  case False
  then obtain v where v: "to_double (- x) = Fin v" "0 \<le> v" "v \<le> m"
    using to_double_below [OF _ _ assms(2), of "- x"] assms(1) by auto
  have "to_double x = num_neg (to_double (- x))"
    using to_double_neg [of "- x"] by simp
  then show ?thesis using v by simp
qed

text \<open>Some doubles, and some roundings.\<close>

lemma doubles:
  "to_double 1 = Fin 1" "to_double (- 1) = Fin (- 1)"
  "to_double 10 = Fin 10" "to_double (- 10) = Fin (- 10)"
  "to_double (2 ^ 1023) = Fin (2 ^ 1023)" "to_double (- (2 ^ 1023)) = Fin (- (2 ^ 1023))"
  "to_double (- (1 / 2 ^ 60)) = Fin (- (1 / 2 ^ 60))"
  "to_double (1 / 2) = Fin (1 / 2)"
  by (simp add: to_double_eval [where k = 0] Let_def round_even_def powr_minus,
      simp add: to_double_eval [where k = 0] Let_def round_even_def powr_minus,
      simp add: to_double_eval [where k = 3] Let_def round_even_def powr_minus,
      simp add: to_double_eval [where k = 3] Let_def round_even_def powr_minus,
      simp add: to_double_eval [where k = 1023] Let_def round_even_def powr_minus,
      simp add: to_double_eval [where k = 1023] Let_def round_even_def powr_minus,
      simp add: to_double_eval [where k = "- 60"] Let_def round_even_def powr_minus,
      simp add: to_double_eval [where k = "- 1"] Let_def round_even_def powr_minus)

lemma literal_1e_9: "to_double (1 / 10 ^ 9) = Fin (4835703278458517 / 2 ^ 82)"
  by (simp add: to_double_eval [where k = "- 30"] Let_def round_even_def powr_minus)

lemma double_1e_9: "to_double (4835703278458517 / 2 ^ 82) = Fin (4835703278458517 / 2 ^ 82)"
  by (simp add: to_double_eval [where k = "- 30"] Let_def round_even_def powr_minus)

lemma rounding_1_plus: "to_double (1 + 1 / 2 ^ 60) = Fin 1"
  by (simp add: to_double_eval [where k = 0] Let_def round_even_def powr_minus)

lemma overflow_2_1024: "to_double (- (2 ^ 1023) - 2 ^ 1023) = NInf"
  by (simp add: to_double_eval [where k = 1024] Let_def round_even_def powr_minus)

lemma largest_double: "to_double (2 ^ 1024 - 2 ^ 971) = Fin (2 ^ 1024 - 2 ^ 971)"
  by (simp add: to_double_eval [where k = 1023] Let_def round_even_def powr_minus)

text \<open>A difference of at most the largest double, \<open>2 ^ 1024 - 2 ^ 971\<close>, does not overflow.\<close>

lemma to_double_finite:
  assumes "\<bar>x\<bar> \<le> 2 ^ 1024 - 2 ^ 971"
  shows "finite_num (to_double x)"
  using to_double_abs_le [OF assms largest_double]
  by (cases "to_double x") simp_all

subsection \<open>The order of numbers\<close>

lemma num_le_numbers: "num_le a b \<Longrightarrow> a \<noteq> NaN \<and> b \<noteq> NaN"
  by (cases a; cases b) auto

lemma num_le_refl: "a \<noteq> NaN \<Longrightarrow> num_le a a"
  by (cases a) auto

lemma num_le_trans: "num_le a b \<Longrightarrow> num_le b c \<Longrightarrow> num_le a c"
  by (cases a; cases b; cases c) auto

lemma num_le_total: "a \<noteq> NaN \<Longrightarrow> b \<noteq> NaN \<Longrightarrow> num_le a b \<or> num_le b a"
  by (cases a; cases b) auto

lemma num_le_not_lt: "num_le a b \<Longrightarrow> \<not> num_lt b a"
  by (cases a; cases b) auto

lemma Math_min_le:
  assumes "a \<noteq> NaN" and "b \<noteq> NaN"
  shows "num_le (Math_min a b) a" and "num_le (Math_min a b) b"
  using assms num_le_total [of a b] by (auto simp: Math_min_def num_le_refl)

lemma Math_max_ge:
  assumes "a \<noteq> NaN" and "b \<noteq> NaN"
  shows "num_le a (Math_max a b)" and "num_le b (Math_max a b)"
  using assms num_le_total [of a b] by (auto simp: Math_max_def num_le_refl)

lemma Math_min_number: "a \<noteq> NaN \<Longrightarrow> b \<noteq> NaN \<Longrightarrow> Math_min a b \<noteq> NaN"
  by (simp add: Math_min_def)

lemma Math_max_number: "a \<noteq> NaN \<Longrightarrow> b \<noteq> NaN \<Longrightarrow> Math_max a b \<noteq> NaN"
  by (simp add: Math_max_def)


lemma Math_max_le:
  assumes "num_le a c" and "num_le b c"
  shows "num_le (Math_max a b) c"
  using assms num_le_numbers [OF assms(1)] num_le_numbers [OF assms(2)]
  by (simp add: Math_max_def)



section \<open>Properties of LatLng construction\<close>

lemma validate_numbers: "validate (Num x) (Num y) altv = Inr (x \<noteq> NaN \<and> y \<noteq> NaN)"
  by (cases x; cases y) auto

lemma new_LatLng_numbers:
  "new_LatLng (Num x) (Num y) altv h =
     (if x = NaN \<or> y = NaN then (Inl InvalidLatLng, h) else alloc_LatLng (Num x) (Num y) altv h)"
  by (simp add: new_LatLng_def validate_numbers)

lemma new_LatLng_finite:
  "new_LatLng (Num (Fin x)) (Num (Fin y)) Undefined h =
     (Inr (next_point h),
      h\<lparr>points := (points h)(next_point h := \<lparr>lat = Fin x, lng = Fin y, alt = None\<rparr>),
        next_point := Suc (next_point h)\<rparr>)"
  by (simp add: new_LatLng_numbers alloc_LatLng_def Let_def)

text \<open>
  C8. Zero is a valid coordinate although it is falsy: \<open>validate(0, 0)\<close> is true and
  \<open>new LatLng(0, 0)\<close> returns a new point with \<open>lat = 0\<close> and \<open>lng = 0\<close>. With one
  coordinate zero, \<open>validate\<close> is true exactly when the other is not NaN, and for a finite
  other coordinate \<open>r\<close> the constructor returns a new point holding \<open>0\<close> and \<open>r\<close>.
\<close>

theorem zero_coordinate_valid:
  "validate (Num (Fin 0)) (Num (Fin 0)) altv = Inr True
   \<and> validate (Num (Fin 0)) (Num y) altv = Inr (y \<noteq> NaN)
   \<and> validate (Num x) (Num (Fin 0)) altv = Inr (x \<noteq> NaN)
   \<and> fst (new_LatLng (Num (Fin 0)) (Num (Fin 0)) altv h) = Inr (next_point h)
   \<and> lat (points (snd (new_LatLng (Num (Fin 0)) (Num (Fin 0)) altv h)) (next_point h)) = Fin 0
   \<and> lng (points (snd (new_LatLng (Num (Fin 0)) (Num (Fin 0)) altv h)) (next_point h)) = Fin 0
   \<and> fst (new_LatLng (Num (Fin 0)) (Num (Fin r)) altv h) = Inr (next_point h)
   \<and> lat (points (snd (new_LatLng (Num (Fin 0)) (Num (Fin r)) altv h)) (next_point h)) = Fin 0
   \<and> lng (points (snd (new_LatLng (Num (Fin 0)) (Num (Fin r)) altv h)) (next_point h)) = Fin r
   \<and> fst (new_LatLng (Num (Fin r)) (Num (Fin 0)) altv h) = Inr (next_point h)
   \<and> lat (points (snd (new_LatLng (Num (Fin r)) (Num (Fin 0)) altv h)) (next_point h)) = Fin r
   \<and> lng (points (snd (new_LatLng (Num (Fin r)) (Num (Fin 0)) altv h)) (next_point h)) = Fin 0"
proof -
  have "validate (Num (Fin 0)) (Num y) altv = Inr (y \<noteq> NaN)"
    and "validate (Num x) (Num (Fin 0)) altv = Inr (x \<noteq> NaN)"
    by (auto simp: validate_numbers)
  then show ?thesis
    by (simp add: validate_numbers new_LatLng_numbers alloc_LatLng_def Let_def
             del: validate.simps)
qed

text \<open>
  C9. Copy construction hands back its argument: \<open>new LatLng(p)\<close> on a \<open>LatLng\<close> \<open>p\<close>
  returns the address of \<open>p\<close> and \<open>new LatLngBounds(b)\<close> on a \<open>LatLngBounds\<close> \<open>b\<close> returns
  the address of \<open>b\<close>, whatever the other arguments, and the heap is unchanged.
\<close>

theorem copy_construction_aliases:
  "new_LatLng (PointRef p) lngv altv h = (Inr p, h)
   \<and> new_LatLngBounds (BoundsRef b) corner2 h = (Inr b, h)"
  by (simp add: new_LatLng_def new_LatLngBounds.simps)

text \<open>
  C1, as stated, fails: \<open>new LatLng(Infinity, 0)\<close> on the empty heap does not throw. It
  returns a new point, at address 0, whose \<open>lat\<close> is \<open>Infinity\<close>.
\<close>

theorem infinite_latitude_accepted:
  "fst (new_LatLng (Num PInf) (Num (Fin 0)) Undefined empty_heap) = Inr 0
   \<and> lat (points (snd (new_LatLng (Num PInf) (Num (Fin 0)) Undefined empty_heap)) 0) = PInf"
  by (simp add: new_LatLng_numbers alloc_LatLng_def Let_def empty_heap_def)

lemma alloc_LatLng_result:
  "alloc_LatLng u v w h =
     (Inr (next_point h),
      h\<lparr>points := (points h)(next_point h :=
            \<lparr>lat = to_number u, lng = to_number v,
             alt = (if w \<noteq> Undefined then Some (to_number w) else None)\<rparr>),
        next_point := Suc (next_point h)\<rparr>)"
  by (simp add: alloc_LatLng_def Let_def)

text \<open>
  C1, amended. With two or three numbers as arguments the constructor throws ``Invalid
  LatLng object'' exactly when \<open>lat\<close> or \<open>lng\<close> is NaN. When neither is NaN, finite or
  not, it returns a new point that stores them, and so it does for the same numbers in
  an array of two or three elements or in an object literal (\<open>lng\<close> or \<open>lon\<close>); a
  \<open>LatLng\<close> is returned as it is. In particular \<open>new LatLng(Infinity, 0)\<close> returns a point
  whose \<open>lat\<close> is \<open>Infinity\<close>.
\<close>

theorem construction_rejects_NaN_scalars_only:
  "(fst (new_LatLng (Num x) (Num y) altv h) = Inl InvalidLatLng \<longleftrightarrow> x = NaN \<or> y = NaN)
   \<and> (x \<noteq> NaN \<and> y \<noteq> NaN \<longrightarrow>
        fst (new_LatLng (Num x) (Num y) altv h) = Inr (next_point h)
        \<and> lat (points (snd (new_LatLng (Num x) (Num y) altv h)) (next_point h)) = x
        \<and> lng (points (snd (new_LatLng (Num x) (Num y) altv h)) (next_point h)) = y
        \<and> new_LatLng (Arr [Num x, Num y]) lngv altv h = new_LatLng (Num x) (Num y) Undefined h
        \<and> new_LatLng (Arr [Num x, Num y, Num z]) lngv altv h = new_LatLng (Num x) (Num y) (Num z) h
        \<and> new_LatLng (Obj (Some (Num x)) (Some (Num y)) olon None) lngv altv h
            = new_LatLng (Num x) (Num y) Undefined h
        \<and> new_LatLng (Obj (Some (Num x)) None (Some (Num y)) None) lngv altv h
            = new_LatLng (Num x) (Num y) Undefined h)
   \<and> new_LatLng (PointRef p) lngv altv h = (Inr p, h)
   \<and> fst (new_LatLng (Num PInf) (Num (Fin 0)) Undefined h) = Inr (next_point h)
   \<and> lat (points (snd (new_LatLng (Num PInf) (Num (Fin 0)) Undefined h)) (next_point h)) = PInf"
proof -
  have arr2: "new_LatLng (Arr [Num x, Num y]) lngv altv h = alloc_LatLng (Num x) (Num y) Undefined h"
    and arr3: "new_LatLng (Arr [Num x, Num y, Num z]) lngv altv h
                 = alloc_LatLng (Num x) (Num y) (Num z) h"
    and rec_lng: "new_LatLng (Obj (Some (Num x)) (Some (Num y)) olon None) lngv altv h
                 = alloc_LatLng (Num x) (Num y) Undefined h"
    and rec_lon: "new_LatLng (Obj (Some (Num x)) None (Some (Num y)) None) lngv altv h
                 = alloc_LatLng (Num x) (Num y) Undefined h"
    and ref: "new_LatLng (PointRef p) lngv altv h = (Inr p, h)"
    by (simp_all add: new_LatLng_def elem_def get_prop_def)
  show ?thesis
    unfolding arr2 arr3 rec_lng rec_lon ref new_LatLng_numbers
    by (simp add: alloc_LatLng_result)
qed

theorem construction_rejects_NaN_scalars_only_witness:
  "PInf \<noteq> NaN \<and> Fin 0 \<noteq> NaN
   \<and> fst (new_LatLng (Num PInf) (Num (Fin 0)) Undefined empty_heap) = Inr 0
   \<and> lat (points (snd (new_LatLng (Arr [Num PInf, Num (Fin 0)]) Undefined Undefined empty_heap)) 0) = PInf"
  using construction_rejects_NaN_scalars_only
          [where x = PInf and y = "Fin 0" and altv = Undefined and h = empty_heap
             and lngv = Undefined]
  by (simp add: empty_heap_def)

section \<open>Properties of equals\<close>

lemma new_LatLng_valid:
  assumes "new_LatLng obj Undefined Undefined h = (Inr q, h1)"
  shows "truthy obj"
  using assms by (cases obj) (auto simp: new_LatLng_def)

lemma new_LatLng_frame:
  assumes "new_LatLng u v w h = (r, h1)" and "p < next_point h"
  shows "points h1 p = points h p"
  using assms
  by (auto simp: new_LatLng_def alloc_LatLng_result split: sum.splits bool.splits val.splits option.splits if_splits)

lemma point_1_0_facts:
  "points point_1_0 0 = \<lparr>lat = Fin 1, lng = Fin 0, alt = None\<rparr>"
  "next_point point_1_0 = Suc 0"
  by (simp_all add: point_1_0_def new_LatLng_numbers alloc_LatLng_result empty_heap_def)

text \<open>
  C6, as stated, fails: \<open>new LatLng(1, 0).equals([-(2 ** -60), 0], 1)\<close> returns true although
  the absolute difference of the two latitudes, \<open>1 + 2 ^ (- 60)\<close>, is more than the margin 1.
  The subtraction \<open>1 - (-(2 ** -60))\<close> is rounded to the double 1, and 1 is what \<open>equals\<close>
  compares with the margin.
\<close>

theorem equals_true_beyond_margin:
  "lat (points point_1_0 0) = Fin 1 \<and> lng (points point_1_0 0) = Fin 0
   \<and> is_double (Fin (- (1 / 2 ^ 60)))
   \<and> fst (LatLng_equals 0 (Arr [Num (Fin (- (1 / 2 ^ 60))), Num (Fin 0)]) (Num (Fin 1)) point_1_0)
       = Inr True
   \<and> \<not> max \<bar>1 - (- (1 / 2 ^ 60))\<bar> \<bar>0 - 0\<bar> \<le> (1::real)"
proof -
  have d: "num_sub (Fin 1) (Fin (- (1 / 2 ^ 60))) = Fin 1"
    using rounding_1_plus by (simp add: num_sub_def)
  have e: "fst (LatLng_equals 0 (Arr [Num (Fin (- (1 / 2 ^ 60))), Num (Fin 0)]) (Num (Fin 1)) point_1_0)
       = Inr (num_le (Math_max (Math_abs (num_sub (Fin 1) (Fin (- (1 / 2 ^ 60)))))
                               (Math_abs (num_sub (Fin 0) (Fin 0)))) (Fin 1))"
    by (simp add: LatLng_equals_def new_LatLng_def elem_def alloc_LatLng_result point_1_0_facts
          margin_or_default_def Let_def del: num_sub_Fin)
  have "fst (LatLng_equals 0 (Arr [Num (Fin (- (1 / 2 ^ 60))), Num (Fin 0)]) (Num (Fin 1)) point_1_0)
       = Inr True"
    unfolding e d by simp
  moreover have "is_double (Fin (- (1 / 2 ^ 60)))"
    using doubles(7) by simp
  ultimately show ?thesis
    by (simp add: point_1_0_facts)
qed

text \<open>
  C6, amended. Let \<open>p\<close> be a point of the heap and let the argument convert, by
  \<open>new LatLng(other)\<close>, to a point \<open>q\<close>. Then \<open>p.equals(other, maxMargin)\<close> returns whether the
  larger of the absolute values of the two differences that the code computes, latitude
  from latitude and longitude from longitude, is at most the margin; the margin is the
  double \<open>1.0E-9\<close>, which is \<open>4835703278458517 / 2 ^ 82\<close>, when \<open>maxMargin\<close> is \<open>undefined\<close> or
  \<open>null\<close>. For finite coordinates \<open>(a, b)\<close> of \<open>p\<close> and \<open>(c, d)\<close> of \<open>q\<close> the differences
  compared are the doubles nearest to \<open>a - c\<close> and \<open>b - d\<close>. So when \<open>a - c\<close> and \<open>b - d\<close> are
  doubles themselves, \<open>equals\<close> returns whether \<open>max |a - c| |b - d| \<le> m\<close>; and in every case
  it returns true when \<open>max |a - c| |b - d| \<le> m\<close> for a margin \<open>m\<close> that is a double. On
  \<open>undefined\<close> and \<open>null\<close> as the argument, \<open>equals\<close> returns false and does not throw.
\<close>

theorem LatLng_equals_rounded_margin:
  assumes "p < next_point h" and "new_LatLng other Undefined Undefined h = (Inr q, h1)"
  shows "LatLng_equals p other maxMargin h =
           (Inr (num_le (Math_max (Math_abs (num_sub (lat (points h p)) (lat (points h1 q))))
                                  (Math_abs (num_sub (lng (points h p)) (lng (points h1 q)))))
                        (to_number (margin_or_default maxMargin))), h1)
       \<and> margin_or_default Undefined = Num (Fin (4835703278458517 / 2 ^ 82))
       \<and> margin_or_default Null = Num (Fin (4835703278458517 / 2 ^ 82))
       \<and> margin_or_default (Num x) = Num x
       \<and> (lat (points h p) = Fin a \<and> lng (points h p) = Fin b
          \<and> lat (points h1 q) = Fin c \<and> lng (points h1 q) = Fin d \<longrightarrow>
            LatLng_equals p other (Num (Fin m)) h
              = (Inr (num_le (Math_max (Math_abs (to_double (a - c))) (Math_abs (to_double (b - d))))
                             (Fin m)), h1)
            \<and> (is_double (Fin (a - c)) \<and> is_double (Fin (b - d)) \<longrightarrow>
                 LatLng_equals p other (Num (Fin m)) h = (Inr (max \<bar>a - c\<bar> \<bar>b - d\<bar> \<le> m), h1)
                 \<and> LatLng_equals p other Undefined h
                     = (Inr (max \<bar>a - c\<bar> \<bar>b - d\<bar> \<le> 4835703278458517 / 2 ^ 82), h1))
            \<and> (is_double (Fin m) \<and> max \<bar>a - c\<bar> \<bar>b - d\<bar> \<le> m \<longrightarrow>
                 LatLng_equals p other (Num (Fin m)) h = (Inr True, h1))
            \<and> (max \<bar>a - c\<bar> \<bar>b - d\<bar> \<le> 4835703278458517 / 2 ^ 82 \<longrightarrow>
                 LatLng_equals p other Undefined h = (Inr True, h1)))
       \<and> LatLng_equals p Undefined maxMargin h = (Inr False, h)
       \<and> LatLng_equals p Null maxMargin h = (Inr False, h)"
proof -
  have t: "truthy other" using assms(2) by (rule new_LatLng_valid)
  have same: "points h1 p = points h p" using assms(2,1) by (rule new_LatLng_frame)
  have general: "LatLng_equals p other mm h =
           (Inr (num_le (Math_max (Math_abs (num_sub (lat (points h p)) (lat (points h1 q))))
                                  (Math_abs (num_sub (lng (points h p)) (lng (points h1 q)))))
                        (to_number (margin_or_default mm))), h1)" for mm
    using t assms(2) by (simp add: LatLng_equals_def same Let_def)
  have default: "margin_or_default Undefined = Num (Fin (4835703278458517 / 2 ^ 82))"
    "margin_or_default Null = Num (Fin (4835703278458517 / 2 ^ 82))"
    "margin_or_default (Num x) = Num x" for x
    unfolding margin_or_default_def literal_1e_9 by simp_all
  have absent: "LatLng_equals p Undefined maxMargin h = (Inr False, h)"
    "LatLng_equals p Null maxMargin h = (Inr False, h)"
    by (simp_all add: LatLng_equals_def)
  have finite: "LatLng_equals p other (Num (Fin m)) h
              = (Inr (num_le (Math_max (Math_abs (to_double (a - c))) (Math_abs (to_double (b - d))))
                             (Fin m)), h1)
            \<and> (is_double (Fin (a - c)) \<and> is_double (Fin (b - d)) \<longrightarrow>
                 LatLng_equals p other (Num (Fin m)) h = (Inr (max \<bar>a - c\<bar> \<bar>b - d\<bar> \<le> m), h1)
                 \<and> LatLng_equals p other Undefined h
                     = (Inr (max \<bar>a - c\<bar> \<bar>b - d\<bar> \<le> 4835703278458517 / 2 ^ 82), h1))
            \<and> (is_double (Fin m) \<and> max \<bar>a - c\<bar> \<bar>b - d\<bar> \<le> m \<longrightarrow>
                 LatLng_equals p other (Num (Fin m)) h = (Inr True, h1))
            \<and> (max \<bar>a - c\<bar> \<bar>b - d\<bar> \<le> 4835703278458517 / 2 ^ 82 \<longrightarrow>
                 LatLng_equals p other Undefined h = (Inr True, h1))"
    if coords: "lat (points h p) = Fin a \<and> lng (points h p) = Fin b
          \<and> lat (points h1 q) = Fin c \<and> lng (points h1 q) = Fin d"
  proof -
    have g: "LatLng_equals p other mm h =
           (Inr (num_le (Math_max (Math_abs (to_double (a - c))) (Math_abs (to_double (b - d))))
                        (to_number (margin_or_default mm))), h1)" for mm
      using coords by (simp add: general)
    have rounded: "LatLng_equals p other (Num (Fin m)) h
              = (Inr (num_le (Math_max (Math_abs (to_double (a - c))) (Math_abs (to_double (b - d))))
                             (Fin m)), h1)"
      by (simp add: g default)
    have exact: "LatLng_equals p other (Num (Fin m)) h = (Inr (max \<bar>a - c\<bar> \<bar>b - d\<bar> \<le> m), h1)
                 \<and> LatLng_equals p other Undefined h
                     = (Inr (max \<bar>a - c\<bar> \<bar>b - d\<bar> \<le> 4835703278458517 / 2 ^ 82), h1)"
      if "is_double (Fin (a - c)) \<and> is_double (Fin (b - d))"
      using that by (simp add: g default)
    have below: "num_le (Math_max (Math_abs (to_double (a - c))) (Math_abs (to_double (b - d))))
                        (Fin k)"
      if "to_double k = Fin k" and "max \<bar>a - c\<bar> \<bar>b - d\<bar> \<le> k" for k
      using that by (intro Math_max_le to_double_abs_le) simp_all
    have sound: "LatLng_equals p other (Num (Fin m)) h = (Inr True, h1)"
      if "is_double (Fin m) \<and> max \<bar>a - c\<bar> \<bar>b - d\<bar> \<le> m"
      using that below [of m] by (simp add: rounded)
    have sound_default: "LatLng_equals p other Undefined h = (Inr True, h1)"
      if "max \<bar>a - c\<bar> \<bar>b - d\<bar> \<le> 4835703278458517 / 2 ^ 82"
      using that below [OF double_1e_9] by (simp add: g default)
    show ?thesis
      using rounded exact sound sound_default by blast
  qed
  show ?thesis
    using general [of maxMargin] finite absent default by blast
qed


lemma point_50_30_facts:
  "points point_50_30 0 = \<lparr>lat = Fin 50, lng = Fin 30, alt = None\<rparr>"
  "next_point point_50_30 = Suc 0"
  by (simp_all add: point_50_30_def new_LatLng_def elem_def alloc_LatLng_result empty_heap_def)

theorem LatLng_equals_rounded_margin_witness:
  "0 < next_point point_50_30
   \<and> fst (new_LatLng (Obj (Some (Num (Fin 50))) (Some (Num (Fin 31))) None None)
             Undefined Undefined point_50_30) = Inr 1
   \<and> is_double (Fin (50 - 50)) \<and> is_double (Fin (30 - 31)) \<and> is_double (Fin (1 / 2))
   \<and> fst (LatLng_equals 0 (Obj (Some (Num (Fin 50))) (Some (Num (Fin 30))) None None) Undefined
             point_50_30) = Inr True
   \<and> fst (LatLng_equals 0 (Obj (Some (Num (Fin 50))) (Some (Num (Fin 31))) None None)
             (Num (Fin (1 / 2))) point_50_30) = Inr False"
proof -
  define h1 where "h1 = snd (new_LatLng (Obj (Some (Num (Fin 50))) (Some (Num (Fin 30))) None None)
             Undefined Undefined point_50_30)"
  define h2 where "h2 = snd (new_LatLng (Obj (Some (Num (Fin 50))) (Some (Num (Fin 31))) None None)
             Undefined Undefined point_50_30)"
  have a: "0 < next_point point_50_30"
    by (simp add: point_50_30_facts)
  have m1: "new_LatLng (Obj (Some (Num (Fin 50))) (Some (Num (Fin 30))) None None)
             Undefined Undefined point_50_30 = (Inr 1, h1)"
    and m2: "new_LatLng (Obj (Some (Num (Fin 50))) (Some (Num (Fin 31))) None None)
             Undefined Undefined point_50_30 = (Inr 1, h2)"
    by (simp_all add: h1_def h2_def new_LatLng_def get_prop_def alloc_LatLng_result
          point_50_30_facts)
  have v1: "lat (points point_50_30 0) = Fin 50 \<and> lng (points point_50_30 0) = Fin 30
          \<and> lat (points h1 1) = Fin 50 \<and> lng (points h1 1) = Fin 30"
    and v2: "lat (points point_50_30 0) = Fin 50 \<and> lng (points point_50_30 0) = Fin 30
          \<and> lat (points h2 1) = Fin 50 \<and> lng (points h2 1) = Fin 31"
    by (simp_all add: h1_def h2_def new_LatLng_def get_prop_def alloc_LatLng_result
          point_50_30_facts)
  have d: "is_double (Fin (50 - 50))" "is_double (Fin (30 - 31))" "is_double (Fin (1 / 2))"
    "is_double (Fin (30 - 30))"
    using doubles by simp_all
  from LatLng_equals_rounded_margin [OF a m1, where a = 50 and b = 30 and c = 50 and d = 30] v1 d
  have "fst (LatLng_equals 0 (Obj (Some (Num (Fin 50))) (Some (Num (Fin 30))) None None) Undefined
             point_50_30) = Inr True"
    by simp
  moreover
  from LatLng_equals_rounded_margin [OF a m2, where a = 50 and b = 30 and c = 50 and d = 31
      and m = "1 / 2"] v2 d
  have "fst (LatLng_equals 0 (Obj (Some (Num (Fin 50))) (Some (Num (Fin 31))) None None)
             (Num (Fin (1 / 2))) point_50_30) = Inr False"
    by simp
  ultimately show ?thesis
    using a m2 d by simp
qed


section \<open>Bounds built from two corners\<close>

lemma new_LatLngBounds_two_pairs:
  assumes "new_LatLngBounds (Arr [Num (Fin s), Num (Fin w)]) (Arr [Num (Fin n), Num (Fin e)]) h
             = (r, h')"
  shows "r = Inr (next_rect h)
        \<and> rects h' (next_rect h) = \<lparr>southWest = Some (Suc (next_point h)),
                                     northEast = Some (Suc (Suc (next_point h)))\<rparr>
        \<and> points h' (Suc (next_point h)) = \<lparr>lat = Fin (min n s), lng = Fin (min e w), alt = None\<rparr>
        \<and> points h' (Suc (Suc (next_point h))) = \<lparr>lat = Fin (max n s), lng = Fin (max e w), alt = None\<rparr>
        \<and> next_point h' = next_point h + 4 \<and> next_rect h' = Suc (next_rect h)
        \<and> unchanged h h'"
  using assms
  by (auto simp add: new_LatLngBounds.simps extend.simps
        new_LatLng_def alloc_LatLng_result alloc_LatLngBounds_def elem_def
        extend_corners_def set_southWest_def set_northEast_def set_lat_def set_lng_def Let_def
        unchanged_def)

section \<open>Properties of toBBoxString\<close>

lemma toBBoxString_corners:
  assumes "southWest (rects h b) = Some sw" and "northEast (rects h b) = Some ne"
  shows "toBBoxString show_num h b =
           Inr (show_num (lng (points h sw)) @ '','' @ show_num (lat (points h sw)) @ '','' @
                show_num (lng (points h ne)) @ '','' @ show_num (lat (points h ne)))"
  using assms
  by (simp add: toBBoxString_def getWest_def getSouth_def getEast_def getNorth_def
                get_lat_def get_lng_def)

text \<open>
  C7. On a bounds with both corners set, \<open>toBBoxString\<close> returns the printed west,
  south, east and north edges, in that order, with one comma between neighbours and
  nothing else. \<open>new LatLngBounds([39.61, -105.02], [39.77, -104.8])\<close> returns a new bounds,
  and when the engine prints these four numbers as written, its \<open>toBBoxString()\<close> is
  \<open>"-105.02,39.61,-104.8,39.77"\<close>.
\<close>

theorem toBBoxString_order:
  "(isValid h b \<longrightarrow>
      (\<exists>w s e n. getWest h b = Inr w \<and> getSouth h b = Inr s
         \<and> getEast h b = Inr e \<and> getNorth h b = Inr n
         \<and> toBBoxString show_num h b =
             Inr (show_num w @ '','' @ show_num s @ '','' @ show_num e @ '','' @ show_num n)))
   \<and> fst (new_LatLngBounds (Arr [Num (Fin 39.61), Num (Fin (- 105.02))])
                            (Arr [Num (Fin 39.77), Num (Fin (- 104.8))]) h) = Inr (next_rect h)
   \<and> (show_num (Fin (- 105.02)) = ''-105.02'' \<and> show_num (Fin 39.61) = ''39.61''
      \<and> show_num (Fin (- 104.8)) = ''-104.8'' \<and> show_num (Fin 39.77) = ''39.77'' \<longrightarrow>
      toBBoxString show_num
        (snd (new_LatLngBounds (Arr [Num (Fin 39.61), Num (Fin (- 105.02))])
                               (Arr [Num (Fin 39.77), Num (Fin (- 104.8))]) h))
        (next_rect h) = Inr ''-105.02,39.61,-104.8,39.77'')"
proof -
  have general: "isValid h b \<longrightarrow>
      (\<exists>w s e n. getWest h b = Inr w \<and> getSouth h b = Inr s
         \<and> getEast h b = Inr e \<and> getNorth h b = Inr n
         \<and> toBBoxString show_num h b =
             Inr (show_num w @ '','' @ show_num s @ '','' @ show_num e @ '','' @ show_num n))"
    by (auto simp: isValid_def toBBoxString_def getWest_def getSouth_def getEast_def
                   getNorth_def get_lat_def get_lng_def)
  obtain r h' where built:
    "new_LatLngBounds (Arr [Num (Fin 39.61), Num (Fin (- 105.02))])
                      (Arr [Num (Fin 39.77), Num (Fin (- 104.8))]) h = (r, h')"
    by (cases "new_LatLngBounds (Arr [Num (Fin 39.61), Num (Fin (- 105.02))])
                      (Arr [Num (Fin 39.77), Num (Fin (- 104.8))]) h")
  from new_LatLngBounds_two_pairs [OF built]
  have facts: "r = Inr (next_rect h)"
      "rects h' (next_rect h) = \<lparr>southWest = Some (Suc (next_point h)),
                                     northEast = Some (Suc (Suc (next_point h)))\<rparr>"
      "points h' (Suc (next_point h)) = \<lparr>lat = Fin 39.61, lng = Fin (- 105.02), alt = None\<rparr>"
      "points h' (Suc (Suc (next_point h))) = \<lparr>lat = Fin 39.77, lng = Fin (- 104.8), alt = None\<rparr>"
    by simp_all
  have example: "show_num (Fin (- 105.02)) = ''-105.02'' \<and> show_num (Fin 39.61) = ''39.61''
      \<and> show_num (Fin (- 104.8)) = ''-104.8'' \<and> show_num (Fin 39.77) = ''39.77'' \<longrightarrow>
      toBBoxString show_num h' (next_rect h) = Inr ''-105.02,39.61,-104.8,39.77''"
    by (simp add: toBBoxString_corners [where sw = "Suc (next_point h)" and ne = "Suc (Suc (next_point h))"] facts)
  show ?thesis
    unfolding built fst_conv snd_conv
    using general example facts(1) by blast
qed

theorem toBBoxString_order_witness:
  "isValid (snd (new_LatLngBounds (Arr [Num (Fin 39.61), Num (Fin (- 105.02))])
                               (Arr [Num (Fin 39.77), Num (Fin (- 104.8))]) empty_heap)) 0
   \<and> toBBoxString
        (\<lambda>x. if x = Fin (- 105.02) then ''-105.02'' else if x = Fin 39.61 then ''39.61''
              else if x = Fin (- 104.8) then ''-104.8'' else ''39.77'')
        (snd (new_LatLngBounds (Arr [Num (Fin 39.61), Num (Fin (- 105.02))])
                               (Arr [Num (Fin 39.77), Num (Fin (- 104.8))]) empty_heap))
        0 = Inr ''-105.02,39.61,-104.8,39.77''"
proof -
  obtain r h' where built:
    "new_LatLngBounds (Arr [Num (Fin 39.61), Num (Fin (- 105.02))])
                      (Arr [Num (Fin 39.77), Num (Fin (- 104.8))]) empty_heap = (r, h')"
    by (cases "new_LatLngBounds (Arr [Num (Fin 39.61), Num (Fin (- 105.02))])
                      (Arr [Num (Fin 39.77), Num (Fin (- 104.8))]) empty_heap")
  let ?sn = "\<lambda>x. if x = Fin (- 105.02) then ''-105.02'' else if x = Fin 39.61 then ''39.61''
              else if x = Fin (- 104.8) then ''-104.8'' else ''39.77''"
  have valid: "isValid h' 0"
    using new_LatLngBounds_two_pairs [OF built] by (simp add: isValid_def empty_heap_def)
  have printed: "?sn (Fin (- 105.02)) = ''-105.02'' \<and> ?sn (Fin 39.61) = ''39.61''
      \<and> ?sn (Fin (- 104.8)) = ''-104.8'' \<and> ?sn (Fin 39.77) = ''39.77''"
    by simp
  have zero: "next_rect empty_heap = 0"
    by (simp add: empty_heap_def)
  from toBBoxString_order [where h = empty_heap and show_num = ?sn, unfolded built fst_conv snd_conv zero]
  have "toBBoxString ?sn h' 0 = Inr ''-105.02,39.61,-104.8,39.77''"
    using printed by blast
  then show ?thesis
    unfolding built snd_conv using valid by blast
qed

section \<open>Properties of intersects and overlaps\<close>

lemma and_also_Inr [simp]: "and_also (Inr x) (Inr y) = Inr (x \<and> y)"
  by (cases x) (simp_all add: and_also_def)

lemma compare_Inr [simp]: "compare rel (Inr a) (Inr b) = Inr (rel a b)"
  by (simp add: compare_def)

lemma both_Inr [simp]: "both (Inr x) (Inr y) = Inr (x \<and> y)"
  by (simp add: both_def)

lemma get_lat_Some [simp]: "get_lat h (Some a) = Inr (lat (points h a))"
  by (simp add: get_lat_def)

lemma get_lng_Some [simp]: "get_lng h (Some a) = Inr (lng (points h a))"
  by (simp add: get_lng_def)

lemma get_lat_None [simp]: "get_lat h None = Inl TypeError"
  by (simp add: get_lat_def)

lemma get_lng_None [simp]: "get_lng h None = Inl TypeError"
  by (simp add: get_lng_def)



lemma valid_bounds_corners:
  assumes "valid_bounds h b"
  obtains sw ne s w n e where
    "southWest (rects h b) = Some sw" and "northEast (rects h b) = Some ne"
    and "sw < next_point h" and "ne < next_point h" and "b < next_rect h"
    and "lat (points h sw) = Fin s" and "lng (points h sw) = Fin w"
    and "lat (points h ne) = Fin n" and "lng (points h ne) = Fin e"
    and "s \<le> n" and "w \<le> e"
  using assms
  by (auto simp: valid_bounds_def defined_bounds_def valid_point_def finite_num_iff
           split: option.splits)

lemma two_squares_facts:
  "rects two_squares 0 = \<lparr>southWest = Some 1, northEast = Some 2\<rparr>"
  "rects two_squares (Suc 0) = \<lparr>southWest = Some 5, northEast = Some 6\<rparr>"
  "points two_squares (Suc 0) = \<lparr>lat = Fin 0, lng = Fin 0, alt = None\<rparr>"
  "points two_squares 2 = \<lparr>lat = Fin 10, lng = Fin 10, alt = None\<rparr>"
  "points two_squares 5 = \<lparr>lat = Fin 10, lng = Fin 10, alt = None\<rparr>"
  "points two_squares 6 = \<lparr>lat = Fin 20, lng = Fin 20, alt = None\<rparr>"
  "next_point two_squares = 8" "next_rect two_squares = 2"
  by (simp_all add: two_squares_def new_LatLngBounds.simps extend.simps
        new_LatLng_def alloc_LatLng_result alloc_LatLngBounds_def elem_def
        extend_corners_def set_southWest_def set_northEast_def set_lat_def set_lng_def Let_def
        empty_heap_def)

text \<open>For finite corners, the span from the larger south to the smaller north and from the
  larger west to the smaller east is the set of points that the two rectangles share.\<close>

lemma common_points:
  fixes s w n e s2 w2 n2 e2 :: real
  shows "(max s s2 \<le> min n n2 \<and> max w w2 \<le> min e e2)
     \<longleftrightarrow> (\<exists>x y. (s \<le> x \<and> x \<le> n \<and> w \<le> y \<and> y \<le> e)
                \<and> (s2 \<le> x \<and> x \<le> n2 \<and> w2 \<le> y \<and> y \<le> e2))"
proof
  assume "max s s2 \<le> min n n2 \<and> max w w2 \<le> min e e2"
  then have "(s \<le> max s s2 \<and> max s s2 \<le> n \<and> w \<le> max w w2 \<and> max w w2 \<le> e)
            \<and> (s2 \<le> max s s2 \<and> max s s2 \<le> n2 \<and> w2 \<le> max w w2 \<and> max w w2 \<le> e2)"
    by simp
  then show "\<exists>x y. (s \<le> x \<and> x \<le> n \<and> w \<le> y \<and> y \<le> e)
                \<and> (s2 \<le> x \<and> x \<le> n2 \<and> w2 \<le> y \<and> y \<le> e2)"
    by blast
next
  assume "\<exists>x y. (s \<le> x \<and> x \<le> n \<and> w \<le> y \<and> y \<le> e)
                \<and> (s2 \<le> x \<and> x \<le> n2 \<and> w2 \<le> y \<and> y \<le> e2)"
  then show "max s s2 \<le> min n n2 \<and> max w w2 \<le> min e e2"
    by auto
qed

text \<open>With finite corners this says that the intersection is not empty and that its
  area, height times width, is zero.\<close>

lemma zero_area_intersection_finite:
  assumes "southWest (rects h a) = Some sw" and "northEast (rects h a) = Some ne"
    and "southWest (rects h b) = Some sw2" and "northEast (rects h b) = Some ne2"
    and "lat (points h sw) = Fin s" and "lng (points h sw) = Fin w"
    and "lat (points h ne) = Fin n" and "lng (points h ne) = Fin e"
    and "lat (points h sw2) = Fin s2" and "lng (points h sw2) = Fin w2"
    and "lat (points h ne2) = Fin n2" and "lng (points h ne2) = Fin e2"
  shows "zero_area_intersection h a b \<longleftrightarrow>
           max s s2 \<le> min n n2 \<and> max w w2 \<le> min e e2
           \<and> (min n n2 - max s s2) * (min e e2 - max w w2) = 0"
  by (auto simp: zero_area_intersection_def assms Let_def)






section \<open>What extend and the constructor leave alone\<close>

lemma new_LatLng_rects:
  assumes "new_LatLng u v w h = (r, h1)"
  shows "rects h1 = rects h \<and> next_rect h1 = next_rect h"
  using assms
  by (auto simp: new_LatLng_def alloc_LatLng_result
           split: sum.splits bool.splits val.splits option.splits if_splits)

lemma rects_frame_refl [simp]: "rects_frame this h h"
  by (simp add: rects_frame_def)

lemma rects_frame_trans:
  assumes "rects_frame this h h1" and "rects_frame this h1 h2"
  shows "rects_frame this h h2"
  using assms unfolding rects_frame_def by (metis le_trans less_le_trans)

lemma rects_unchanged_frame:
  assumes "rects_unchanged h h1" and "this < next_rect h"
  shows "rects_frame this h h1"
  using assms by (simp add: rects_unchanged_def rects_frame_def)

lemma extend_corners_frame:
  assumes "extend_corners this sw2 ne2 h = (r, h')"
  shows "rects_frame this h h'"
proof -
  show ?thesis
  proof (cases "southWest (rects h this)")
    case None
    note sw = this
    show ?thesis
    proof (cases "northEast (rects h this)")
      case None
      then show ?thesis
        using assms sw
        by (auto simp: extend_corners_def new_LatLng_numbers alloc_LatLng_result Let_def
              rects_frame_def set_southWest_def set_northEast_def
            split: if_splits)
    next
      case (Some ne)
      then show ?thesis
        using assms sw by (auto simp: extend_corners_def)
    qed
  next
    case (Some sw)
    then show ?thesis
      using assms
      by (auto simp: extend_corners_def Let_def rects_frame_def set_lat_def set_lng_def
          split: option.splits)
  qed
qed

lemma extend_LatLngBounds_frame:
  assumes "extend_LatLngBounds this b h = (r, h')"
  shows "rects_frame this h h'"
  using assms
  by (auto simp: extend_LatLngBounds_def extend_corners_frame split: option.splits)





lemma extend_other:
  assumes "\<And>p. obj \<noteq> PointRef p" and "\<And>b. obj \<noteq> BoundsRef b"
  shows "extend this obj h =
     (if \<not> truthy obj then (Inr (), h)
      else (case validate obj Undefined Undefined of
              Inl e \<Rightarrow> (Inl e, h)
            | Inr True \<Rightarrow>
                (case new_LatLng obj Undefined Undefined h of
                   (Inl e, h1) \<Rightarrow> (Inl e, h1)
                 | (Inr p, h1) \<Rightarrow> extend_corners this p p h1)
            | Inr False \<Rightarrow>
                (case new_LatLngBounds obj Undefined h of
                   (Inl e, h1) \<Rightarrow> (Inl e, h1)
                 | (Inr b, h1) \<Rightarrow> extend_LatLngBounds this b h1)))"
  using assms by (cases obj) (auto simp add: extend.simps)

lemma new_LatLngBounds_other:
  assumes "truthy corner1" and "\<And>b. corner1 \<noteq> BoundsRef b"
  shows "new_LatLngBounds corner1 corner2 h =
     (if truthy corner2
      then (case alloc_LatLngBounds h of
              (this, h1) \<Rightarrow>
                (case extend_each this [corner1, corner2] h1 of
                   (Inl e, h2) \<Rightarrow> (Inl e, h2)
                 | (Inr u, h2) \<Rightarrow> (Inr this, h2)))
      else (case corner1 of
              Arr xs \<Rightarrow>
                (case alloc_LatLngBounds h of
                   (this, h1) \<Rightarrow>
                     (case extend_each this xs h1 of
                        (Inl e, h2) \<Rightarrow> (Inl e, h2)
                      | (Inr u, h2) \<Rightarrow> (Inr this, h2)))
            | _ \<Rightarrow> (Inl TypeError, h)))"
  using assms by (cases corner1) (auto simp add: new_LatLngBounds.simps)

lemma alloc_LatLngBounds_fresh:
  assumes "rects_frame (next_rect h) (snd (alloc_LatLngBounds h)) h2"
  shows "rects_unchanged h h2"
  using assms by (simp add: alloc_LatLngBounds_def Let_def rects_frame_def rects_unchanged_def)

lemma rects_unchanged_refl [simp]: "rects_unchanged h h"
  by (simp add: rects_unchanged_def)

lemma extend_frame_all:
  "this < next_rect h \<longrightarrow> rects_frame this h (snd (extend this obj h))"
  "rects_unchanged h (snd (new_LatLngBounds corner1 corner2 h))"
  "that < next_rect h' \<longrightarrow> rects_frame that h' (snd (extend_each that xs h'))"
proof (induction this obj h and corner1 corner2 h and that xs h'
       rule: extend_new_LatLngBounds_extend_each.induct)
  case (1 this obj h)
  show ?case
  proof
    assume alloc: "this < next_rect h"
    consider (point) p where "obj = PointRef p" | (bounds) b where "obj = BoundsRef b"
      | (other) "\<And>p. obj \<noteq> PointRef p" "\<And>b. obj \<noteq> BoundsRef b"
      by (cases obj) auto
    then show "rects_frame this h (snd (extend this obj h))"
    proof cases
      case point
      then show ?thesis
        by (simp add: extend.simps extend_corners_frame [OF surjective_pairing])
    next
      case bounds
      then show ?thesis
        by (simp add: extend.simps extend_LatLngBounds_frame [OF surjective_pairing])
    next
      case other
      note unfold = extend_other [OF other, of this h]
      show ?thesis
      proof (cases "truthy obj")
        case False
        then show ?thesis by (simp add: unfold)
      next
        case True
        show ?thesis
        proof (cases "validate obj Undefined Undefined")
          case (Inl e)
          then show ?thesis using True by (simp add: unfold)
        next
          case (Inr ok)
          show ?thesis
          proof (cases ok)
            case True
            note ok = this
            obtain r h1 where made: "new_LatLng obj Undefined Undefined h = (r, h1)"
              by (cases "new_LatLng obj Undefined Undefined h")
            have f1: "rects_frame this h h1"
              using new_LatLng_rects [OF made] by (simp add: rects_frame_def)
            show ?thesis
            proof (cases r)
              case (Inl e)
              then show ?thesis
                using \<open>truthy obj\<close> Inr ok made f1 by (simp add: unfold)
            next
              case (Inr p)
              have "rects_frame this h1 (snd (extend_corners this p p h1))"
                by (rule extend_corners_frame [OF surjective_pairing])
              with f1 have "rects_frame this h (snd (extend_corners this p p h1))"
                by (rule rects_frame_trans)
              then show ?thesis
                using \<open>truthy obj\<close> \<open>validate obj Undefined Undefined = Inr ok\<close> ok made Inr
                by (simp add: unfold)
            qed
          next
            case False
            note ok = this
            have ih: "rects_unchanged h (snd (new_LatLngBounds obj Undefined h))"
              using "1.IH" other \<open>truthy obj\<close> Inr ok by (cases obj) auto
            obtain r h1 where made: "new_LatLngBounds obj Undefined h = (r, h1)"
              by (cases "new_LatLngBounds obj Undefined h")
            have f1: "rects_frame this h h1"
              using ih alloc by (simp add: made rects_unchanged_frame)
            show ?thesis
            proof (cases r)
              case (Inl e)
              then show ?thesis
                using \<open>truthy obj\<close> Inr ok made f1 by (simp add: unfold)
            next
              case (Inr b)
              have "rects_frame this h1 (snd (extend_LatLngBounds this b h1))"
                by (rule extend_LatLngBounds_frame [OF surjective_pairing])
              with f1 have "rects_frame this h (snd (extend_LatLngBounds this b h1))"
                by (rule rects_frame_trans)
              then show ?thesis
                using \<open>truthy obj\<close> \<open>validate obj Undefined Undefined = Inr ok\<close> ok made Inr
                by (simp add: unfold)
            qed
          qed
        qed
      qed
    qed
  qed
next
  case (2 corner1 corner2 h)
  obtain h1 where alloc: "alloc_LatLngBounds h = (next_rect h, h1)"
    by (simp add: alloc_LatLngBounds_def Let_def)
  have fresh: "next_rect h < next_rect h1"
    using alloc by (auto simp: alloc_LatLngBounds_def Let_def)
  consider (falsy) "\<not> truthy corner1" | (bounds) b where "corner1 = BoundsRef b"
    | (other) "truthy corner1" "\<And>b. corner1 \<noteq> BoundsRef b"
    by (cases corner1) auto
  then show ?case
  proof cases
    case falsy
    then show ?thesis
      by (simp add: new_LatLngBounds.simps alloc_LatLngBounds_def Let_def rects_unchanged_def)
  next
    case bounds
    then show ?thesis
      by (simp add: new_LatLngBounds.simps)
  next
    case other
    note unfold = new_LatLngBounds_other [OF other, of corner2 h]
    show ?thesis
    proof (cases "truthy corner2")
      case True
      have "rects_frame (next_rect h) h1 (snd (extend_each (next_rect h) [corner1, corner2] h1))"
        using "2.IH" other True alloc fresh by (cases corner1) auto
      then have "rects_unchanged h (snd (extend_each (next_rect h) [corner1, corner2] h1))"
        using alloc alloc_LatLngBounds_fresh [of h] by simp
      then show ?thesis
        using True alloc by (auto simp add: unfold split: prod.splits sum.splits)
    next
      case False
      show ?thesis
      proof (cases corner1)
        case (Arr xs)
        have "rects_frame (next_rect h) h1 (snd (extend_each (next_rect h) xs h1))"
          using "2.IH" other False alloc fresh Arr by auto
        then have "rects_unchanged h (snd (extend_each (next_rect h) xs h1))"
          using alloc alloc_LatLngBounds_fresh [of h] by simp
        then show ?thesis
          using False alloc by (auto simp add: unfold [unfolded Arr] Arr split: prod.splits sum.splits)
      qed (use False other in \<open>simp_all add: new_LatLngBounds.simps\<close>)
    qed
  qed
next
  case (3 this h)
  show ?case by simp
next
  case (4 this x xs h)
  show ?case
  proof
    assume alloc: "this < next_rect h"
    obtain r h1 where step: "extend this x h = (r, h1)"
      by (cases "extend this x h")
    have f1: "rects_frame this h h1"
      using "4.IH"(1) alloc by (simp add: step)
    show "rects_frame this h (snd (extend_each this (x # xs) h))"
    proof (cases r)
      case (Inl e)
      then show ?thesis using f1 by (simp add: step)
    next
      case (Inr u)
      have "this < next_rect h1"
        using f1 alloc by (simp add: rects_frame_def)
      then have "rects_frame this h1 (snd (extend_each this xs h1))"
        using "4.IH"(2) [OF step [symmetric] Inr] by simp
      with f1 have "rects_frame this h (snd (extend_each this xs h1))"
        by (rule rects_frame_trans)
      then show ?thesis using Inr by (simp add: step)
    qed
  qed
qed

section \<open>Queries on an empty bounds\<close>

lemma new_LatLngBounds_unchanged:
  assumes "new_LatLngBounds corner1 corner2 h = (r, h1)" and "b < next_rect h"
  shows "rects h1 b = rects h b"
  using extend_frame_all(2) [of h corner1 corner2] assms
  by (simp add: rects_unchanged_def)

lemma compare_Inl_right: "isl (compare rel x (Inl e))"
  by (cases x) (simp_all add: compare_def)

lemma and_also_isl: "isl x \<Longrightarrow> isl (and_also x y)"
  by (cases x) (simp_all add: and_also_def)

lemma both_isl: "isl x \<Longrightarrow> isl (both x y)"
  by (cases x) (simp_all add: both_def)

lemma contains_corners_empty:
  assumes "southWest (rects h b) = None"
  shows "isl (contains_corners h b sw2 ne2)"
  using assms by (simp add: contains_corners_def Let_def and_also_isl compare_Inl_right)

lemma contains_empty:
  assumes "empty_bounds h b" and "b < next_rect h"
  shows "isl (fst (contains b obj h))"
proof (cases "validate obj Undefined Undefined")
  case (Inl e)
  then show ?thesis by (simp add: contains_def)
next
  case (Inr ok)
  show ?thesis
  proof (cases ok)
    case True
    obtain r h1 where made: "new_LatLng obj Undefined Undefined h = (r, h1)"
      by (cases "new_LatLng obj Undefined Undefined h")
    have "southWest (rects h1 b) = None"
      using new_LatLng_rects [OF made] assms(1) by (simp add: empty_bounds_def)
    then show ?thesis
      using Inr True made by (cases r) (simp_all add: contains_def contains_corners_empty)
  next
    case False
    obtain r h1 where made: "new_LatLngBounds obj Undefined h = (r, h1)"
      by (cases "new_LatLngBounds obj Undefined h")
    have "southWest (rects h1 b) = None"
      using new_LatLngBounds_unchanged [OF made assms(2)] assms(1) by (simp add: empty_bounds_def)
    then show ?thesis
      using Inr False made by (cases r) (simp_all add: contains_def contains_corners_empty)
  qed
qed

lemma intersects_empty:
  assumes "empty_bounds h b" and "b < next_rect h"
  shows "isl (fst (intersects b obj h))" and "isl (fst (overlaps b obj h))"
proof -
  obtain r h1 where made: "new_LatLngBounds obj Undefined h = (r, h1)"
    by (cases "new_LatLngBounds obj Undefined h")
  have none: "southWest (rects h1 b) = None"
    using new_LatLngBounds_unchanged [OF made assms(2)] assms(1) by (simp add: empty_bounds_def)
  show "isl (fst (intersects b obj h))"
    using made none
    by (cases r) (simp_all add: intersects_def Let_def both_isl and_also_isl compare_Inl_right)
  show "isl (fst (overlaps b obj h))"
    using made none
    by (cases r) (simp_all add: overlaps_def Let_def both_isl and_also_isl compare_Inl_right)
qed

lemma equals_empty:
  assumes "empty_bounds h b" and "b < next_rect h" and "truthy obj"
    and "fst (new_LatLngBounds obj Undefined h) = Inr c"
  shows "fst (LatLngBounds_equals b obj maxMargin h) = Inl TypeError"
proof -
  obtain h1 where made: "new_LatLngBounds obj Undefined h = (Inr c, h1)"
    using assms(4) by (cases "new_LatLngBounds obj Undefined h") simp
  have none: "southWest (rects h1 b) = None"
    using new_LatLngBounds_unchanged [OF made assms(2)] assms(1) by (simp add: empty_bounds_def)
  show ?thesis
    using assms(3) made none by (simp add: LatLngBounds_equals_def)
qed

lemma extend_empty_point:
  assumes "empty_bounds h b" and "valid_point h p"
  shows "fst (extend b (PointRef p) h) = Inr ()" and "isValid (snd (extend b (PointRef p) h)) b"
  using assms
  by (auto simp: extend.simps extend_corners_def empty_bounds_def valid_point_def finite_num_iff
        new_LatLng_finite set_southWest_def set_northEast_def isValid_def Let_def)

text \<open>
  C10. On a bounds with both corners unset, \<open>pad\<close>, \<open>getCenter\<close>, \<open>getWest\<close>, \<open>getSouth\<close>,
  \<open>getEast\<close>, \<open>getNorth\<close>, \<open>getNorthWest\<close>, \<open>getSouthEast\<close> and \<open>toBBoxString\<close> throw a
  \<open>TypeError\<close>, and so does \<open>equals\<close> on every truthy argument from which a bounds can be
  built. \<open>contains\<close>, \<open>intersects\<close> and \<open>overlaps\<close> return no value on any argument. What
  can be called: \<open>isValid\<close> (false), \<open>getSouthWest\<close> and \<open>getNorthEast\<close> (\<open>undefined\<close>), and
  \<open>extend\<close>, which does nothing on \<open>undefined\<close> and sets both corners on a valid point.
\<close>

theorem empty_bounds_queries_throw:
  assumes "empty_bounds h b" and "b < next_rect h"
  shows "pad b ratio h = (Inl TypeError, h)
       \<and> getCenter b h = (Inl TypeError, h)
       \<and> getWest h b = Inl TypeError \<and> getSouth h b = Inl TypeError
       \<and> getEast h b = Inl TypeError \<and> getNorth h b = Inl TypeError
       \<and> getNorthWest b h = (Inl TypeError, h) \<and> getSouthEast b h = (Inl TypeError, h)
       \<and> toBBoxString show_num h b = Inl TypeError
       \<and> (truthy obj \<and> fst (new_LatLngBounds obj Undefined h) = Inr c \<longrightarrow>
            fst (LatLngBounds_equals b obj maxMargin h) = Inl TypeError)
       \<and> isl (fst (contains b obj h)) \<and> isl (fst (intersects b obj h))
       \<and> isl (fst (overlaps b obj h))
       \<and> \<not> isValid h b
       \<and> getSouthWest h b = Undefined \<and> getNorthEast h b = Undefined
       \<and> extend b Undefined h = (Inr (), h)
       \<and> (valid_point h p \<longrightarrow>
            fst (extend b (PointRef p) h) = Inr () \<and> isValid (snd (extend b (PointRef p) h)) b)"
proof -
  have corners: "southWest (rects h b) = None" "northEast (rects h b) = None"
    using assms(1) by (simp_all add: empty_bounds_def)
  have getters: "pad b ratio h = (Inl TypeError, h)" "getCenter b h = (Inl TypeError, h)"
     "getWest h b = Inl TypeError" "getSouth h b = Inl TypeError"
     "getEast h b = Inl TypeError" "getNorth h b = Inl TypeError"
     "getNorthWest b h = (Inl TypeError, h)" "getSouthEast b h = (Inl TypeError, h)"
     "toBBoxString show_num h b = Inl TypeError"
     "\<not> isValid h b" "getSouthWest h b = Undefined" "getNorthEast h b = Undefined"
     "extend b Undefined h = (Inr (), h)"
    by (simp_all add: corners pad_def getCenter_def getWest_def getSouth_def getEast_def
          getNorth_def getNorthWest_def getSouthEast_def toBBoxString_def isValid_def
          getSouthWest_def getNorthEast_def extend.simps)
  show ?thesis
    using getters contains_empty [OF assms] intersects_empty [OF assms]
      equals_empty [OF assms] extend_empty_point [OF assms(1)]
    by blast
qed

lemma point_and_empty_bounds_facts:
  "rects point_and_empty_bounds 0 = \<lparr>southWest = None, northEast = None\<rparr>"
  "points point_and_empty_bounds 0 = \<lparr>lat = Fin 5, lng = Fin 7, alt = None\<rparr>"
  "next_point point_and_empty_bounds = Suc 0" "next_rect point_and_empty_bounds = Suc 0"
  by (simp_all add: point_and_empty_bounds_def new_LatLngBounds.simps new_LatLng_finite
        alloc_LatLngBounds_def Let_def empty_heap_def)

theorem empty_bounds_queries_throw_witness:
  "empty_bounds point_and_empty_bounds 0 \<and> 0 < next_rect point_and_empty_bounds
   \<and> valid_point point_and_empty_bounds 0
   \<and> pad 0 (Num (Fin 0)) point_and_empty_bounds = (Inl TypeError, point_and_empty_bounds)
   \<and> toBBoxString (\<lambda>x. ''0'') point_and_empty_bounds 0 = Inl TypeError
   \<and> fst (LatLngBounds_equals 0 (BoundsRef 0) Undefined point_and_empty_bounds) = Inl TypeError
   \<and> fst (extend 0 (PointRef 0) point_and_empty_bounds) = Inr ()
   \<and> isValid (snd (extend 0 (PointRef 0) point_and_empty_bounds)) 0"
proof -
  have e: "empty_bounds point_and_empty_bounds 0" and a: "0 < next_rect point_and_empty_bounds"
    and p: "valid_point point_and_empty_bounds 0"
    by (simp_all add: empty_bounds_def valid_point_def point_and_empty_bounds_facts)
  have t: "truthy (BoundsRef 0) \<and> fst (new_LatLngBounds (BoundsRef 0) Undefined point_and_empty_bounds) = Inr 0"
    by (simp add: new_LatLngBounds.simps)
  from empty_bounds_queries_throw
         [OF e a, where p = 0 and obj = "BoundsRef 0" and c = 0 and ratio = "Num (Fin 0)"
            and maxMargin = Undefined and show_num = "\<lambda>x. ''0''"]
       e a p t
  show ?thesis by blast
qed

section \<open>Properties of pad\<close>

lemma unchanged_refl [simp]: "unchanged h h"
  by (simp add: unchanged_def)

lemma unchanged_trans:
  assumes "unchanged h h1" and "unchanged h1 h2"
  shows "unchanged h h2"
  using assms unfolding unchanged_def by (metis le_trans less_le_trans)

lemma new_LatLng_unchanged:
  assumes "new_LatLng u v w h = (r, h1)"
  shows "unchanged h h1"
  using assms
  by (auto simp: new_LatLng_def alloc_LatLng_result unchanged_def
           split: sum.splits bool.splits val.splits option.splits if_splits)

lemma extend_corners_fresh:
  assumes "extend_corners this sw2 ne2 h = (r, h')" and "this \<ge> nr" and "np \<le> next_point h"
    and "case southWest (rects h this) of None \<Rightarrow> True | Some sw \<Rightarrow> np \<le> sw"
    and "case northEast (rects h this) of None \<Rightarrow> True | Some ne \<Rightarrow> np \<le> ne"
  shows "(\<forall>a < np. points h' a = points h a) \<and> (\<forall>b < nr. rects h' b = rects h b)
         \<and> next_point h \<le> next_point h' \<and> next_rect h' = next_rect h
         \<and> (case southWest (rects h' this) of None \<Rightarrow> True | Some sw \<Rightarrow> np \<le> sw)
         \<and> (case northEast (rects h' this) of None \<Rightarrow> True | Some ne \<Rightarrow> np \<le> ne)"
  using assms
  by (auto simp: extend_corners_def new_LatLng_numbers alloc_LatLng_result Let_def
        set_southWest_def set_northEast_def set_lat_def set_lng_def
      split: option.splits if_splits)


lemma new_LatLngBounds_points_unchanged:
  assumes "new_LatLngBounds (PointRef c1) (PointRef c2) h = (r, h')"
  shows "unchanged h h'"
proof -
  define nb where "nb = next_rect h"
  define h1 where "h1 = snd (alloc_LatLngBounds h)"
  have alloc: "alloc_LatLngBounds h = (nb, h1)"
    by (simp add: nb_def h1_def alloc_LatLngBounds_def Let_def)
  have h1: "points h1 = points h" "next_point h1 = next_point h" "next_rect h1 = Suc nb"
    "\<forall>b < nb. rects h1 b = rects h b" "rects h1 nb = \<lparr>southWest = None, northEast = None\<rparr>"
    by (simp_all add: nb_def h1_def alloc_LatLngBounds_def Let_def)
  obtain r1 h2 where s1: "extend_corners nb c1 c1 h1 = (r1, h2)"
    by (cases "extend_corners nb c1 c1 h1")
  have f1: "(\<forall>a < next_point h. points h2 a = points h1 a) \<and> (\<forall>b < nb. rects h2 b = rects h1 b)
         \<and> next_point h1 \<le> next_point h2 \<and> next_rect h2 = next_rect h1
         \<and> (case southWest (rects h2 nb) of None \<Rightarrow> True | Some sw \<Rightarrow> next_point h \<le> sw)
         \<and> (case northEast (rects h2 nb) of None \<Rightarrow> True | Some ne \<Rightarrow> next_point h \<le> ne)"
    by (rule extend_corners_fresh [OF s1]) (simp_all add: h1)
  then have u1: "unchanged h h2"
    using h1 by (simp add: unchanged_def nb_def)
  obtain r2 h3 where s2: "extend_corners nb c2 c2 h2 = (r2, h3)"
    by (cases "extend_corners nb c2 c2 h2")
  have f2: "(\<forall>a < next_point h. points h3 a = points h2 a) \<and> (\<forall>b < nb. rects h3 b = rects h2 b)
         \<and> next_point h2 \<le> next_point h3 \<and> next_rect h3 = next_rect h2
         \<and> (case southWest (rects h3 nb) of None \<Rightarrow> True | Some sw \<Rightarrow> next_point h \<le> sw)
         \<and> (case northEast (rects h3 nb) of None \<Rightarrow> True | Some ne \<Rightarrow> next_point h \<le> ne)"
    using f1 by (intro extend_corners_fresh [OF s2]) (simp_all add: h1)
  then have u2: "unchanged h h3"
    using f1 h1 by (simp add: unchanged_def nb_def)
  show ?thesis
    using assms u1 u2
    by (auto simp: new_LatLngBounds.simps extend.simps alloc s1 s2 split: sum.splits)
qed

lemma pad_unchanged: "unchanged h (snd (pad b ratio h))"
proof (cases "southWest (rects h b)")
  case None
  then show ?thesis by (simp add: pad_def)
next
  case (Some sw)
  note sw = this
  show ?thesis
  proof (cases "northEast (rects h b)")
    case None
    then show ?thesis using sw by (simp add: pad_def)
  next
    case (Some ne)
    define hb where "hb = num_mul (Math_abs (num_sub (lat (points h sw)) (lat (points h ne))))
                         (to_number ratio)"
    define wb where "wb = num_mul (Math_abs (num_sub (lng (points h sw)) (lng (points h ne))))
                         (to_number ratio)"
    obtain r1 h1 where m1: "new_LatLng (Num (num_sub (lat (points h sw)) hb))
                              (Num (num_sub (lng (points h sw)) wb)) Undefined h = (r1, h1)"
      by (cases "new_LatLng (Num (num_sub (lat (points h sw)) hb))
                              (Num (num_sub (lng (points h sw)) wb)) Undefined h")
    obtain r2 h2 where m2: "new_LatLng (Num (num_add (lat (points h1 ne)) hb))
                                   (Num (num_add (lng (points h1 ne)) wb)) Undefined h1 = (r2, h2)"
      by (cases "new_LatLng (Num (num_add (lat (points h1 ne)) hb))
                                   (Num (num_add (lng (points h1 ne)) wb)) Undefined h1")
    have u1: "unchanged h h1" by (rule new_LatLng_unchanged [OF m1])
    have u2: "unchanged h h2" by (rule unchanged_trans [OF u1 new_LatLng_unchanged [OF m2]])
    have u3: "unchanged h (snd (new_LatLngBounds (PointRef c1) (PointRef c2) h2))" for c1 c2
      by (rule unchanged_trans [OF u2 new_LatLngBounds_points_unchanged [OF surjective_pairing]])
    show ?thesis
      using sw Some m1 m2 u1 u2 u3
      by (simp add: pad_def Let_def hb_def [symmetric] wb_def [symmetric] split: sum.splits)
  qed
qed


lemma margin_or_default_absent:
  "margin_or_default Undefined = Num (Fin (4835703278458517 / 2 ^ 82))"
  "margin_or_default Null = Num (Fin (4835703278458517 / 2 ^ 82))"
  unfolding margin_or_default_def literal_1e_9 by simp_all

lemma pad_corners:
  assumes "southWest (rects h b) = Some sw" and "northEast (rects h b) = Some ne"
  shows "pad b ratio h =
     (case new_LatLng
             (Num (num_sub (lat (points h sw))
                (num_mul (Math_abs (num_sub (lat (points h sw)) (lat (points h ne))))
                         (to_number ratio))))
             (Num (num_sub (lng (points h sw))
                (num_mul (Math_abs (num_sub (lng (points h sw)) (lng (points h ne))))
                         (to_number ratio))))
             Undefined h of
        (Inl e, h1) \<Rightarrow> (Inl e, h1)
      | (Inr c1, h1) \<Rightarrow>
          (case new_LatLng
                  (Num (num_add (lat (points h1 ne))
                     (num_mul (Math_abs (num_sub (lat (points h sw)) (lat (points h ne))))
                              (to_number ratio))))
                  (Num (num_add (lng (points h1 ne))
                     (num_mul (Math_abs (num_sub (lng (points h sw)) (lng (points h ne))))
                              (to_number ratio))))
                  Undefined h1 of
             (Inl e, h2) \<Rightarrow> (Inl e, h2)
           | (Inr c2, h2) \<Rightarrow> new_LatLngBounds (PointRef c1) (PointRef c2) h2))"
  unfolding pad_def assms prod.case option.case Let_def ..

lemma pad_zero:
  assumes "southWest (rects h b) = Some sw" and "northEast (rects h b) = Some ne"
    and "sw < next_point h" and "ne < next_point h" and "b < next_rect h"
    and "lat (points h sw) = Fin s" and "lng (points h sw) = Fin w"
    and "lat (points h ne) = Fin n" and "lng (points h ne) = Fin e"
    and "s \<le> n" and "w \<le> e"
    and "to_double s = Fin s" and "to_double w = Fin w"
    and "to_double n = Fin n" and "to_double e = Fin e"
    and "finite_num (to_double (s - n))" and "finite_num (to_double (w - e))"
    and "pad b (Num (Fin 0)) h = (r, h')"
  shows "r = Inr (next_rect h)"
    and "rects h' (next_rect h) = \<lparr>southWest = Some (next_point h + 2),
                                    northEast = Some (next_point h + 3)\<rparr>"
    and "points h' (next_point h + 2) = \<lparr>lat = Fin s, lng = Fin w, alt = None\<rparr>"
    and "points h' (next_point h + 3) = \<lparr>lat = Fin n, lng = Fin e, alt = None\<rparr>"
    and "next_point h' = next_point h + 4" and "next_rect h' = Suc (next_rect h)"
proof -
  obtain dh dw where d: "to_double (s - n) = Fin dh" "to_double (w - e) = Fin dw"
    using assms(16,17) by (auto simp: finite_num_iff)
  have hb: "num_mul (Math_abs (num_sub (lat (points h sw)) (lat (points h ne))))
                    (to_number (Num (Fin 0))) = Fin 0"
    and wb: "num_mul (Math_abs (num_sub (lng (points h sw)) (lng (points h ne))))
                    (to_number (Num (Fin 0))) = Fin 0"
    using assms(6-9) d by simp_all
  have south: "num_sub (lat (points h sw)) (Fin 0) = Fin s"
    and west: "num_sub (lng (points h sw)) (Fin 0) = Fin w"
    using assms(6,7,12,13) by simp_all
  have p: "pad b (Num (Fin 0)) h =
           (case new_LatLng (Num (Fin s)) (Num (Fin w)) Undefined h of
              (Inl e, h1) \<Rightarrow> (Inl e, h1)
            | (Inr c1, h1) \<Rightarrow>
                (case new_LatLng (Num (num_add (lat (points h1 ne)) (Fin 0)))
                                 (Num (num_add (lng (points h1 ne)) (Fin 0))) Undefined h1 of
                   (Inl e, h2) \<Rightarrow> (Inl e, h2)
                 | (Inr c2, h2) \<Rightarrow> new_LatLngBounds (PointRef c1) (PointRef c2) h2))"
    unfolding pad_corners [OF assms(1,2)] hb wb south west ..
  show "r = Inr (next_rect h)"
    and "rects h' (next_rect h) = \<lparr>southWest = Some (next_point h + 2),
                                    northEast = Some (next_point h + 3)\<rparr>"
    and "points h' (next_point h + 2) = \<lparr>lat = Fin s, lng = Fin w, alt = None\<rparr>"
    and "points h' (next_point h + 3) = \<lparr>lat = Fin n, lng = Fin e, alt = None\<rparr>"
    and "next_point h' = next_point h + 4" and "next_rect h' = Suc (next_rect h)"
    using assms(3-11,14,15,18) unfolding p
    by (auto simp: Let_def new_LatLng_finite new_LatLngBounds.simps extend.simps
        alloc_LatLngBounds_def extend_corners_def set_southWest_def set_northEast_def
        set_lat_def set_lng_def min_def max_def)
qed

lemma overflow_buffer:
  assumes "\<not> finite_num (to_double x)"
  shows "num_sub (Fin s) (num_mul (Math_abs (to_double x)) (Fin 0)) = NaN"
  using assms to_double_number [of x]
  by (cases "to_double x") (simp_all add: num_sub_def)

lemma pad_zero_overflow:
  assumes "southWest (rects h b) = Some sw" and "northEast (rects h b) = Some ne"
    and "lat (points h sw) = Fin s" and "lng (points h sw) = Fin w"
    and "lat (points h ne) = Fin n" and "lng (points h ne) = Fin e"
    and "\<not> (finite_num (to_double (s - n)) \<and> finite_num (to_double (w - e)))"
  shows "pad b (Num (Fin 0)) h = (Inl InvalidLatLng, h)"
proof -
  define x where "x = num_sub (lat (points h sw))
                (num_mul (Math_abs (num_sub (lat (points h sw)) (lat (points h ne))))
                         (to_number (Num (Fin 0))))"
  define y where "y = num_sub (lng (points h sw))
                (num_mul (Math_abs (num_sub (lng (points h sw)) (lng (points h ne))))
                         (to_number (Num (Fin 0))))"
  have "x = NaN \<or> y = NaN"
    using assms(7) overflow_buffer [of "s - n" s] overflow_buffer [of "w - e" w]
    by (auto simp: x_def y_def assms(3-6))
  then have "new_LatLng (Num x) (Num y) Undefined h = (Inl InvalidLatLng, h)"
    by (simp add: new_LatLng_numbers)
  then show ?thesis
    unfolding pad_corners [OF assms(1,2)] x_def [symmetric] y_def [symmetric] by simp
qed

lemma unchanged_valid_bounds:
  assumes "unchanged h h'" and "valid_bounds h b"
  shows "valid_bounds h' b" and "rects h' b = rects h b"
    and "getSouth h' b = getSouth h b" and "getWest h' b = getWest h b"
    and "getNorth h' b = getNorth h b" and "getEast h' b = getEast h b"
  using assms
  by (auto simp: unchanged_def valid_bounds_def defined_bounds_def valid_point_def
        getSouth_def getWest_def getNorth_def getEast_def
      split: option.splits)

lemma infinite_strip_facts:
  "rects infinite_strip 0 = \<lparr>southWest = Some 1, northEast = Some 2\<rparr>"
  "points infinite_strip (Suc 0) = \<lparr>lat = PInf, lng = Fin 0, alt = None\<rparr>"
  "points infinite_strip 2 = \<lparr>lat = PInf, lng = Fin 1, alt = None\<rparr>"
  "next_point infinite_strip = 4" "next_rect infinite_strip = Suc 0"
  by (simp_all add: infinite_strip_def new_LatLngBounds.simps extend.simps
        new_LatLng_def alloc_LatLng_result alloc_LatLngBounds_def elem_def
        extend_corners_def set_southWest_def set_northEast_def set_lat_def set_lng_def Let_def
        Math_min_def Math_max_def empty_heap_def)

text \<open>The differences that \<open>pad\<close> computes are finite when north minus south and east
  minus west are at most the largest double.\<close>

lemma finite_extent_within:
  assumes "southWest (rects h b) = Some sw" and "northEast (rects h b) = Some ne"
    and "lat (points h sw) = Fin s" and "lng (points h sw) = Fin w"
    and "lat (points h ne) = Fin n" and "lng (points h ne) = Fin e"
    and "\<bar>s - n\<bar> \<le> 2 ^ 1024 - 2 ^ 971" and "\<bar>w - e\<bar> \<le> 2 ^ 1024 - 2 ^ 971"
  shows "finite_extent h b"
  using assms(7,8) by (simp add: finite_extent_def assms(1-6) to_double_finite)

lemma wide_strip_facts:
  "rects wide_strip 0 = \<lparr>southWest = Some 1, northEast = Some 2\<rparr>"
  "points wide_strip (Suc 0) = \<lparr>lat = Fin (- (2 ^ 1023)), lng = Fin 0, alt = None\<rparr>"
  "points wide_strip 2 = \<lparr>lat = Fin (2 ^ 1023), lng = Fin 1, alt = None\<rparr>"
  "next_point wide_strip = 4" "next_rect wide_strip = Suc 0"
  by (simp_all add: wide_strip_def new_LatLngBounds.simps extend.simps
        new_LatLng_def alloc_LatLng_result alloc_LatLngBounds_def elem_def
        extend_corners_def set_southWest_def set_northEast_def set_lat_def set_lng_def Let_def
        empty_heap_def)

text \<open>
  C5, as stated, fails: \<open>new LatLngBounds([-(2 ** 1023), 0], [2 ** 1023, 1])\<close> is a valid
  bounds, its corners set, ordered and finite, and on it \<open>pad(0)\<close> returns no bounds. The
  difference \<open>sw.lat - ne.lat\<close> is \<open>- (2 ^ 1024)\<close>, which overflows to \<open>-Infinity\<close>; the height
  buffer \<open>|-Infinity| * 0\<close> is NaN, so the constructor of the first new corner throws.
\<close>

theorem pad_zero_throws_on_overflow:
  "valid_bounds wide_strip 0 \<and> double_bounds wide_strip 0
   \<and> getSouth wide_strip 0 = Inr (Fin (- (2 ^ 1023)))
   \<and> getNorth wide_strip 0 = Inr (Fin (2 ^ 1023))
   \<and> getWest wide_strip 0 = Inr (Fin 0) \<and> getEast wide_strip 0 = Inr (Fin 1)
   \<and> pad 0 (Num (Fin 0)) wide_strip = (Inl InvalidLatLng, wide_strip)"
proof -
  have v: "valid_bounds wide_strip 0"
    by (simp add: valid_bounds_def defined_bounds_def valid_point_def wide_strip_facts)
  have d: "double_bounds wide_strip 0"
    using doubles by (simp add: double_bounds_def wide_strip_facts)
  have edges: "getSouth wide_strip 0 = Inr (Fin (- (2 ^ 1023)))"
    "getNorth wide_strip 0 = Inr (Fin (2 ^ 1023))"
    "getWest wide_strip 0 = Inr (Fin 0)" "getEast wide_strip 0 = Inr (Fin 1)"
    by (simp_all add: getSouth_def getNorth_def getWest_def getEast_def wide_strip_facts)
  have height: "num_sub (Fin (- (2 ^ 1023))) (Fin (2 ^ 1023)) = NInf"
    unfolding num_sub_Fin by (rule overflow_2_1024)
  have buffer: "num_mul (Math_abs (num_sub (Fin (- (2 ^ 1023))) (Fin (2 ^ 1023))))
                  (to_number (Num (Fin 0))) = NaN"
    unfolding height by simp
  have south: "num_sub (Fin (- (2 ^ 1023))) NaN = NaN"
    by (simp add: num_sub_def)
  have corners: "southWest (rects wide_strip 0) = Some (Suc 0)"
    "northEast (rects wide_strip 0) = Some 2"
    by (simp_all add: wide_strip_facts)
  have "pad 0 (Num (Fin 0)) wide_strip = (Inl InvalidLatLng, wide_strip)"
    unfolding pad_corners [OF corners] wide_strip_facts LatLng.simps buffer south
    by (simp add: new_LatLng_numbers)
  then show ?thesis
    using v d edges by simp
qed


text \<open>The same happens on a bounds with an infinite corner, which the constructor accepts:
  on \<open>new LatLngBounds([Infinity, 0], [Infinity, 1])\<close> the height buffer is
  \<open>|Infinity - Infinity| * 0\<close>, which is NaN.\<close>

lemma pad_zero_throws_on_infinite_corner:
  "isValid infinite_strip 0 \<and> defined_bounds infinite_strip 0
   \<and> getSouth infinite_strip 0 = Inr PInf \<and> getNorth infinite_strip 0 = Inr PInf
   \<and> getWest infinite_strip 0 = Inr (Fin 0) \<and> getEast infinite_strip 0 = Inr (Fin 1)
   \<and> pad 0 (Num (Fin 0)) infinite_strip = (Inl InvalidLatLng, infinite_strip)"
  by (simp add: infinite_strip_facts isValid_def defined_bounds_def getSouth_def getNorth_def
        getWest_def getEast_def pad_def num_sub_def new_LatLng_numbers Let_def)

text \<open>
  C5, amended. \<open>pad\<close> changes no object that exists when it is called, whatever the ratio
  and whether it returns or throws; so on a valid bounds \<open>b\<close> the corners and edges of \<open>b\<close>
  are the same after \<open>b.pad(ratio)\<close>. Let \<open>b\<close> be a valid bounds, that is one whose corners
  are set, ordered and finite. When the coordinates of the corners are doubles and the two
  differences \<open>sw.lat - ne.lat\<close> and \<open>sw.lng - ne.lng\<close> do not overflow, \<open>b.pad(0)\<close> returns a
  new object, which is a valid bounds with the four edges of \<open>b\<close>, and \<open>b.equals\<close> of it is
  true. When one of the two differences overflows, \<open>b.pad(0)\<close> throws ``Invalid LatLng
  object'' and changes nothing.
\<close>

theorem pad_zero_without_overflow:
  "unchanged h (snd (pad b ratio h))
   \<and> (valid_bounds h b \<longrightarrow>
        rects (snd (pad b ratio h)) b = rects h b
        \<and> getSouth (snd (pad b ratio h)) b = getSouth h b
        \<and> getWest (snd (pad b ratio h)) b = getWest h b
        \<and> getNorth (snd (pad b ratio h)) b = getNorth h b
        \<and> getEast (snd (pad b ratio h)) b = getEast h b)
   \<and> (valid_bounds h b \<and> double_bounds h b \<and> finite_extent h b \<longrightarrow>
        fst (pad b (Num (Fin 0)) h) = Inr (next_rect h)
        \<and> next_rect h \<noteq> b
        \<and> valid_bounds (snd (pad b (Num (Fin 0)) h)) (next_rect h)
        \<and> getSouth (snd (pad b (Num (Fin 0)) h)) (next_rect h) = getSouth h b
        \<and> getWest (snd (pad b (Num (Fin 0)) h)) (next_rect h) = getWest h b
        \<and> getNorth (snd (pad b (Num (Fin 0)) h)) (next_rect h) = getNorth h b
        \<and> getEast (snd (pad b (Num (Fin 0)) h)) (next_rect h) = getEast h b
        \<and> LatLngBounds_equals b (BoundsRef (next_rect h)) Undefined (snd (pad b (Num (Fin 0)) h))
            = (Inr True, snd (pad b (Num (Fin 0)) h)))
   \<and> (valid_bounds h b \<and> \<not> finite_extent h b \<longrightarrow>
        pad b (Num (Fin 0)) h = (Inl InvalidLatLng, h))"
proof (intro conjI impI)
  show u: "unchanged h (snd (pad b ratio h))" for ratio
    by (rule pad_unchanged)
  {
    assume over: "valid_bounds h b \<and> \<not> finite_extent h b"
    then have valid: "valid_bounds h b" by simp
    from valid obtain sw ne s w n e where c:
      "southWest (rects h b) = Some sw" "northEast (rects h b) = Some ne"
      "lat (points h sw) = Fin s" "lng (points h sw) = Fin w"
      "lat (points h ne) = Fin n" "lng (points h ne) = Fin e"
      by (rule valid_bounds_corners)
    have "\<not> (finite_num (to_double (s - n)) \<and> finite_num (to_double (w - e)))"
      using over by (simp add: finite_extent_def c)
    then show "pad b (Num (Fin 0)) h = (Inl InvalidLatLng, h)"
      by (rule pad_zero_overflow [OF c])
  }
  {
    assume valid: "valid_bounds h b"
    show "rects (snd (pad b ratio h)) b = rects h b"
      and "getSouth (snd (pad b ratio h)) b = getSouth h b"
      and "getWest (snd (pad b ratio h)) b = getWest h b"
      and "getNorth (snd (pad b ratio h)) b = getNorth h b"
      and "getEast (snd (pad b ratio h)) b = getEast h b"
      by (rule unchanged_valid_bounds [OF u valid])+
  }
  assume hyp: "valid_bounds h b \<and> double_bounds h b \<and> finite_extent h b"
  then have valid: "valid_bounds h b" by simp
  from valid obtain sw ne s w n e where c:
    "southWest (rects h b) = Some sw" "northEast (rects h b) = Some ne"
    "sw < next_point h" "ne < next_point h" "b < next_rect h"
    "lat (points h sw) = Fin s" "lng (points h sw) = Fin w"
    "lat (points h ne) = Fin n" "lng (points h ne) = Fin e" "s \<le> n" "w \<le> e"
    by (rule valid_bounds_corners)
  have d: "to_double s = Fin s" "to_double w = Fin w" "to_double n = Fin n" "to_double e = Fin e"
    using hyp c by (simp_all add: double_bounds_def)
  have f: "finite_num (to_double (s - n))" "finite_num (to_double (w - e))"
    using hyp c by (simp_all add: finite_extent_def)
  obtain r h' where p: "pad b (Num (Fin 0)) h = (r, h')"
    by (cases "pad b (Num (Fin 0)) h")
  note z = pad_zero [OF c d f p]
  have u': "unchanged h h'"
    using u [of "Num (Fin 0)"] by (simp add: p)
  have old: "rects h' b = rects h b" "points h' sw = points h sw" "points h' ne = points h ne"
    using u' c(3,4,5) by (simp_all add: unchanged_def)
  show "fst (pad b (Num (Fin 0)) h) = Inr (next_rect h)"
    using z(1) by (simp add: p)
  show "next_rect h \<noteq> b"
    using c(5) by simp
  show "valid_bounds (snd (pad b (Num (Fin 0)) h)) (next_rect h)"
    using z c(10,11) by (simp add: p valid_bounds_def defined_bounds_def valid_point_def)
  show "getSouth (snd (pad b (Num (Fin 0)) h)) (next_rect h) = getSouth h b"
    and "getWest (snd (pad b (Num (Fin 0)) h)) (next_rect h) = getWest h b"
    and "getNorth (snd (pad b (Num (Fin 0)) h)) (next_rect h) = getNorth h b"
    and "getEast (snd (pad b (Num (Fin 0)) h)) (next_rect h) = getEast h b"
    using z c by (simp_all add: p getSouth_def getWest_def getNorth_def getEast_def)
  show "LatLngBounds_equals b (BoundsRef (next_rect h)) Undefined (snd (pad b (Num (Fin 0)) h))
            = (Inr True, snd (pad b (Num (Fin 0)) h))"
    using z c old
    by (simp add: p LatLngBounds_equals_def new_LatLngBounds.simps LatLng_equals_def
          getSouthWest_def getNorthEast_def new_LatLng_def margin_or_default_absent Let_def)
qed

lemma two_squares_valid: "valid_bounds two_squares 0"
  by (simp add: valid_bounds_def defined_bounds_def valid_point_def two_squares_facts)

theorem pad_zero_without_overflow_witness:
  "valid_bounds two_squares 0 \<and> double_bounds two_squares 0 \<and> finite_extent two_squares 0
   \<and> unchanged two_squares (snd (pad 0 (Num (Fin 2)) two_squares))
   \<and> getNorth (snd (pad 0 (Num (Fin 2)) two_squares)) 0 = Inr (Fin 10)
   \<and> fst (pad 0 (Num (Fin 0)) two_squares) = Inr 2
   \<and> getNorth (snd (pad 0 (Num (Fin 0)) two_squares)) 2 = Inr (Fin 10)
   \<and> LatLngBounds_equals 0 (BoundsRef 2) Undefined (snd (pad 0 (Num (Fin 0)) two_squares))
        = (Inr True, snd (pad 0 (Num (Fin 0)) two_squares))
   \<and> valid_bounds wide_strip 0 \<and> \<not> finite_extent wide_strip 0
   \<and> fst (pad 0 (Num (Fin 0)) wide_strip) = Inl InvalidLatLng"
proof -
  have north: "getNorth two_squares 0 = Inr (Fin 10)" and fresh: "next_rect two_squares = 2"
    by (simp_all add: getNorth_def two_squares_facts)
  have d: "double_bounds two_squares 0"
    using doubles by (simp add: double_bounds_def two_squares_facts)
  have f: "finite_extent two_squares 0"
    using doubles by (simp add: finite_extent_def two_squares_facts)
  have v: "valid_bounds wide_strip 0"
    by (simp add: valid_bounds_def defined_bounds_def valid_point_def wide_strip_facts)
  have "num_sub (lat (points wide_strip (Suc 0))) (lat (points wide_strip 2)) = NInf"
    unfolding wide_strip_facts LatLng.simps num_sub_Fin by (rule overflow_2_1024)
  then have o: "\<not> finite_extent wide_strip 0"
    by (simp add: finite_extent_def wide_strip_facts(1))
  from pad_zero_without_overflow [where h = two_squares and b = 0 and ratio = "Num (Fin 2)"]
    two_squares_valid d f
  have first: "unchanged two_squares (snd (pad 0 (Num (Fin 2)) two_squares))
   \<and> getNorth (snd (pad 0 (Num (Fin 2)) two_squares)) 0 = Inr (Fin 10)
   \<and> fst (pad 0 (Num (Fin 0)) two_squares) = Inr 2
   \<and> getNorth (snd (pad 0 (Num (Fin 0)) two_squares)) 2 = Inr (Fin 10)
   \<and> LatLngBounds_equals 0 (BoundsRef 2) Undefined (snd (pad 0 (Num (Fin 0)) two_squares))
        = (Inr True, snd (pad 0 (Num (Fin 0)) two_squares))"
    unfolding north fresh by blast
  from pad_zero_without_overflow [where h = wide_strip and b = 0] v o
  have "pad 0 (Num (Fin 0)) wide_strip = (Inl InvalidLatLng, wide_strip)"
    by blast
  then have "fst (pad 0 (Num (Fin 0)) wide_strip) = Inl InvalidLatLng"
    by simp
  then show ?thesis
    using first two_squares_valid d f v o by blast
qed

section \<open>Extending over a sequence of points\<close>

lemma compare_Inl [simp]: "compare rel (Inl e) y = Inl e"
  by (simp add: compare_def)

lemma compare_Inr_Inl [simp]: "compare rel (Inr a) (Inl e) = Inl e"
  by (simp add: compare_def)

lemma and_also_Inl [simp]: "and_also (Inl e) y = Inl e"
  by (simp add: and_also_def)

lemma contains_point:
  "contains b (PointRef p) h = (contains_corners h b (Some p) (Some p), h)"
  by (simp add: contains_def new_LatLng_def)

lemma three_points_facts:
  "rects three_points 0 = \<lparr>southWest = None, northEast = None\<rparr>"
  "points three_points 0 = \<lparr>lat = Fin 1, lng = Fin 2, alt = None\<rparr>"
  "points three_points (Suc 0) = \<lparr>lat = Fin (- 3), lng = Fin 8, alt = None\<rparr>"
  "points three_points 2 = \<lparr>lat = Fin 4, lng = Fin (- 5), alt = None\<rparr>"
  "next_point three_points = 3" "next_rect three_points = Suc 0"
  by (simp_all add: three_points_def new_LatLngBounds.simps new_LatLng_finite
        alloc_LatLngBounds_def Let_def empty_heap_def)

lemma inside_corners:
  assumes "southWest (rects h b) = Some sw" and "northEast (rects h b) = Some ne"
  shows "inside h b q \<longleftrightarrow>
           num_le (lat (points h sw)) (lat (points h q)) \<and> num_le (lat (points h q)) (lat (points h ne))
           \<and> num_le (lng (points h sw)) (lng (points h q)) \<and> num_le (lng (points h q)) (lng (points h ne))"
  using assms by (simp add: inside_def contains_corners_def Let_def num_ge_def)

lemma extend_point_grows:
  assumes "grown_from n0 h b" and "p < n0" and "number_point h p"
  shows "fst (extend b (PointRef p) h) = Inr ()"
    and "grown_from n0 (snd (extend b (PointRef p) h)) b"
    and "\<forall>a < n0. points (snd (extend b (PointRef p) h)) a = points h a"
    and "next_point h \<le> next_point (snd (extend b (PointRef p) h))"
    and "inside (snd (extend b (PointRef p) h)) b p"
    and "\<forall>q < n0. inside h b q \<longrightarrow> inside (snd (extend b (PointRef p) h)) b q"
proof -
  define h' where "h' = snd (extend b (PointRef p) h)"
  from assms(3) have p: "p < next_point h" "lat (points h p) \<noteq> NaN" "lng (points h p) \<noteq> NaN"
    by (simp_all add: number_point_def)
  from assms(1) have n0: "n0 \<le> next_point h"
    by (simp add: grown_from_def)
  from assms(1) consider
      (empty) "southWest (rects h b) = None" "northEast (rects h b) = None"
    | (defined) sw ne where "southWest (rects h b) = Some sw" "northEast (rects h b) = Some ne"
        "sw \<noteq> ne" "n0 \<le> sw" "n0 \<le> ne" "number_point h sw" "number_point h ne"
    by (auto simp: grown_from_def split: option.splits)
  then have "fst (extend b (PointRef p) h) = Inr ()
    \<and> grown_from n0 h' b
    \<and> (\<forall>a < n0. points h' a = points h a)
    \<and> next_point h \<le> next_point h'
    \<and> inside h' b p
    \<and> (\<forall>q < n0. inside h b q \<longrightarrow> inside h' b q)"
  proof cases
    case empty
    have run: "extend b (PointRef p) h =
        (Inr (),
         h\<lparr>points := (points h)
              (next_point h := \<lparr>lat = lat (points h p), lng = lng (points h p), alt = None\<rparr>,
               Suc (next_point h) := \<lparr>lat = lat (points h p), lng = lng (points h p), alt = None\<rparr>),
           next_point := Suc (Suc (next_point h)),
           rects := (rects h)(b := (rects h b)\<lparr>southWest := Some (next_point h),
                                              northEast := Some (Suc (next_point h))\<rparr>)\<rparr>)"
      using empty p
      by (simp add: extend.simps extend_corners_def new_LatLng_numbers alloc_LatLng_result
            Let_def set_southWest_def set_northEast_def)
    have none: "\<not> inside h b q" for q
      using empty by (simp add: inside_def contains_corners_def Let_def)
    show ?thesis
      unfolding h'_def run
      using p n0 assms(2) none
      by (simp add: grown_from_def number_point_def inside_def contains_corners_def
            Let_def num_ge_def num_le_refl)
  next
    case defined
    from defined(6,7) have c: "sw < next_point h" "ne < next_point h"
      "lat (points h sw) \<noteq> NaN" "lng (points h sw) \<noteq> NaN"
      "lat (points h ne) \<noteq> NaN" "lng (points h ne) \<noteq> NaN"
      by (simp_all add: number_point_def)
    have apart: "p \<noteq> sw" "p \<noteq> ne"
      using assms(2) defined(4,5) by simp_all
    have run: "extend b (PointRef p) h =
        (Inr (),
         h\<lparr>points := (points h)
              (sw := (points h sw)\<lparr>lat := Math_min (lat (points h p)) (lat (points h sw)),
                                   lng := Math_min (lng (points h p)) (lng (points h sw))\<rparr>,
               ne := (points h ne)\<lparr>lat := Math_max (lat (points h p)) (lat (points h ne)),
                                   lng := Math_max (lng (points h p)) (lng (points h ne))\<rparr>)\<rparr>)"
      using defined(1,2,3) apart
      by (simp add: extend.simps extend_corners_def Let_def set_lat_def set_lng_def)
    have corners: "southWest (rects h' b) = Some sw" "northEast (rects h' b) = Some ne"
      and vals: "points h' sw = (points h sw)\<lparr>lat := Math_min (lat (points h p)) (lat (points h sw)),
                                   lng := Math_min (lng (points h p)) (lng (points h sw))\<rparr>"
        "points h' ne = (points h ne)\<lparr>lat := Math_max (lat (points h p)) (lat (points h ne)),
                                   lng := Math_max (lng (points h p)) (lng (points h ne))\<rparr>"
      and others: "\<And>a. a \<noteq> sw \<Longrightarrow> a \<noteq> ne \<Longrightarrow> points h' a = points h a"
      and nxt: "next_point h' = next_point h"
      using defined(1,2,3) by (simp_all add: h'_def run)
    have old: "\<forall>a < n0. points h' a = points h a"
      using others defined(4,5) by auto
    have grown: "grown_from n0 h' b"
      using corners vals nxt n0 defined(3,4,5) c p
      by (simp add: grown_from_def number_point_def Math_min_number Math_max_number)
    have pin: "inside h' b p"
      using p c others [OF apart]
      by (simp add: inside_corners [OF corners] vals Math_min_le Math_max_ge)
    have mono: "inside h' b q" if "q < n0" "inside h b q" for q
    proof -
      have q: "points h' q = points h q"
        using old that(1) by simp
      from that(2) have i: "num_le (lat (points h sw)) (lat (points h q))"
        "num_le (lat (points h q)) (lat (points h ne))"
        "num_le (lng (points h sw)) (lng (points h q))"
        "num_le (lng (points h q)) (lng (points h ne))"
        by (simp_all add: inside_corners [OF defined(1,2)])
      show ?thesis
        using i p c
        by (auto simp: inside_corners [OF corners] vals q
              intro: num_le_trans [OF Math_min_le(2)] num_le_trans [OF _ Math_max_ge(2)])
    qed
    show ?thesis
      using old grown pin mono nxt by (simp add: run)
  qed
  then show "fst (extend b (PointRef p) h) = Inr ()"
    and "grown_from n0 (snd (extend b (PointRef p) h)) b"
    and "\<forall>a < n0. points (snd (extend b (PointRef p) h)) a = points h a"
    and "next_point h \<le> next_point (snd (extend b (PointRef p) h))"
    and "inside (snd (extend b (PointRef p) h)) b p"
    and "\<forall>q < n0. inside h b q \<longrightarrow> inside (snd (extend b (PointRef p) h)) b q"
    by (simp_all add: h'_def)
qed


lemma extend_each_points:
  assumes "grown_from n0 h b" and "\<forall>p \<in> set ps. p < n0 \<and> number_point h p"
  shows "fst (extend_each b (map PointRef ps) h) = Inr ()
       \<and> (\<forall>p \<in> set ps. inside (snd (extend_each b (map PointRef ps) h)) b p)
       \<and> (\<forall>q < n0. inside h b q \<longrightarrow> inside (snd (extend_each b (map PointRef ps) h)) b q)"
  using assms
proof (induction ps arbitrary: h)
  case Nil
  then show ?case by simp
next
  case (Cons p ps)
  define h1 where "h1 = snd (extend b (PointRef p) h)"
  have p: "p < n0" "number_point h p"
    using Cons.prems(2) by simp_all
  note step = extend_point_grows [OF Cons.prems(1) p, folded h1_def]
  have run: "extend b (PointRef p) h = (Inr (), h1)"
    using step(1) by (simp add: h1_def prod_eq_iff)
  have keep: "number_point h1 q" if "q < n0" "number_point h q" for q
    using that step(3,4) by (simp add: number_point_def)
  have rest: "\<forall>q \<in> set ps. q < n0 \<and> number_point h1 q"
    using Cons.prems(2) keep by simp
  note ih = Cons.IH [OF step(2) rest]
  have unfold: "extend_each b (map PointRef (p # ps)) h = extend_each b (map PointRef ps) h1"
    by (simp add: run)
  have first: "inside (snd (extend_each b (map PointRef ps) h1)) b p"
    using ih step(5) p(1) by blast
  have older: "inside (snd (extend_each b (map PointRef ps) h1)) b q"
    if "q < n0" "inside h b q" for q
    using ih step(6) that by blast
  show ?case
    unfolding unfold using ih first older by simp
qed

text \<open>
  C2. Start from an empty bounds \<open>b\<close> and call \<open>b.extend(p)\<close> for every point \<open>p\<close> of a list
  of points of the heap whose \<open>lat\<close> and \<open>lng\<close> are not NaN, in order (the loop of the
  constructor). Every call returns, and afterwards \<open>b.contains(p)\<close> is true for every
  point \<open>p\<close> of the list; \<open>contains\<close> leaves the heap as it is. Points with finite
  coordinates are a special case.
\<close>

theorem extend_then_contains:
  assumes "empty_bounds h b" and "\<forall>p \<in> set ps. number_point h p"
  shows "fst (extend_each b (map PointRef ps) h) = Inr ()
       \<and> (\<forall>p \<in> set ps.
             contains b (PointRef p) (snd (extend_each b (map PointRef ps) h))
               = (Inr True, snd (extend_each b (map PointRef ps) h)))"
proof -
  have start: "grown_from (next_point h) h b"
    using assms(1) by (simp add: grown_from_def empty_bounds_def)
  have old: "\<forall>p \<in> set ps. p < next_point h \<and> number_point h p"
    using assms(2) by (simp add: number_point_def)
  from extend_each_points [OF start old] show ?thesis
    by (simp add: contains_point inside_def)
qed

lemma valid_point_number: "valid_point h p \<Longrightarrow> number_point h p"
  by (auto simp: valid_point_def number_point_def finite_num_iff)

theorem extend_then_contains_witness:
  "empty_bounds three_points 0
   \<and> valid_point three_points 0 \<and> valid_point three_points 1 \<and> valid_point three_points 2
   \<and> number_point three_points 0 \<and> number_point three_points 1 \<and> number_point three_points 2
   \<and> fst (extend_each 0 (map PointRef [0, 1, 2]) three_points) = Inr ()
   \<and> contains 0 (PointRef 0) (snd (extend_each 0 (map PointRef [0, 1, 2]) three_points))
        = (Inr True, snd (extend_each 0 (map PointRef [0, 1, 2]) three_points))
   \<and> contains 0 (PointRef 1) (snd (extend_each 0 (map PointRef [0, 1, 2]) three_points))
        = (Inr True, snd (extend_each 0 (map PointRef [0, 1, 2]) three_points))
   \<and> contains 0 (PointRef 2) (snd (extend_each 0 (map PointRef [0, 1, 2]) three_points))
        = (Inr True, snd (extend_each 0 (map PointRef [0, 1, 2]) three_points))"
proof -
  have e: "empty_bounds three_points 0"
    and v: "valid_point three_points 0" "valid_point three_points 1" "valid_point three_points 2"
    by (simp_all add: empty_bounds_def valid_point_def three_points_facts)
  have n: "number_point three_points 0" "number_point three_points 1" "number_point three_points 2"
    using v by (simp_all add: valid_point_number)
  then have p: "\<forall>p \<in> set [0, 1, 2]. number_point three_points p"
    by simp
  from extend_then_contains [OF e p] e v n show ?thesis
    by simp
qed

section \<open>The two states of a bounds\<close>

lemma extend_corners_ordered:
  assumes "defined_bounds h b"
    and "sw2 < next_point h" and "ne2 < next_point h"
    and "num_le (lat (points h sw2)) (lat (points h ne2))"
    and "num_le (lng (points h sw2)) (lng (points h ne2))"
  shows "fst (extend_corners b sw2 ne2 h) = Inr ()"
    and "defined_bounds (snd (extend_corners b sw2 ne2 h)) b"
proof -
  from assms(1) obtain sw ne where c:
    "southWest (rects h b) = Some sw" "northEast (rects h b) = Some ne"
    "sw < next_point h" "ne < next_point h"
    "num_le (lat (points h sw)) (lat (points h ne))"
    "num_le (lng (points h sw)) (lng (points h ne))"
    by (auto simp: defined_bounds_def split: option.splits)
  note n = num_le_numbers [OF c(5)] num_le_numbers [OF c(6)]
    num_le_numbers [OF assms(4)] num_le_numbers [OF assms(5)]
  show "fst (extend_corners b sw2 ne2 h) = Inr ()"
    using c by (simp add: extend_corners_def Let_def)
  show "defined_bounds (snd (extend_corners b sw2 ne2 h)) b"
    using c n assms(4,5)
    by (auto simp: extend_corners_def Let_def set_lat_def set_lng_def defined_bounds_def
          Math_min_le Math_max_ge num_le_refl Math_min_number Math_max_number
        intro: num_le_trans [OF Math_min_le(2)] num_le_trans [OF _ Math_max_ge(2)]
               num_le_trans [OF Math_min_le(1)] num_le_trans [OF _ Math_max_ge(1)])
qed


lemma extend_corners_first:
  assumes "empty_bounds h b"
    and "sw2 < next_point h" and "ne2 < next_point h"
    and "num_le (lat (points h sw2)) (lat (points h ne2))"
    and "num_le (lng (points h sw2)) (lng (points h ne2))"
  shows "fst (extend_corners b sw2 ne2 h) = Inr ()"
    and "defined_bounds (snd (extend_corners b sw2 ne2 h)) b"
proof -
  note n = num_le_numbers [OF assms(4)] num_le_numbers [OF assms(5)]
  show "fst (extend_corners b sw2 ne2 h) = Inr ()"
    and "defined_bounds (snd (extend_corners b sw2 ne2 h)) b"
    using assms n
    by (auto simp: extend_corners_def empty_bounds_def new_LatLng_numbers alloc_LatLng_result
          Let_def set_southWest_def set_northEast_def defined_bounds_def)
qed

lemma extend_corners_states:
  assumes "empty_bounds h b \<or> defined_bounds h b"
    and "sw2 < next_point h" and "ne2 < next_point h"
    and "num_le (lat (points h sw2)) (lat (points h ne2))"
    and "num_le (lng (points h sw2)) (lng (points h ne2))"
  shows "fst (extend_corners b sw2 ne2 h) = Inr ()
         \<and> defined_bounds (snd (extend_corners b sw2 ne2 h)) b"
  using assms extend_corners_first [of h b sw2 ne2] extend_corners_ordered [of h b sw2 ne2]
  by blast

lemma extend_point_states:
  assumes "empty_bounds h b \<or> defined_bounds h b" and "number_point h p"
  shows "fst (extend b (PointRef p) h) = Inr ()
         \<and> defined_bounds (snd (extend b (PointRef p) h)) b"
  using extend_corners_states [OF assms(1), of p p] assms(2)
  by (simp add: extend.simps number_point_def num_le_refl)

lemma extend_bounds_states:
  assumes "empty_bounds h b \<or> defined_bounds h b" and "defined_bounds h c"
  shows "fst (extend b (BoundsRef c) h) = Inr ()
         \<and> defined_bounds (snd (extend b (BoundsRef c) h)) b"
proof -
  from assms(2) obtain sw2 ne2 where c:
    "southWest (rects h c) = Some sw2" "northEast (rects h c) = Some ne2"
    "sw2 < next_point h" "ne2 < next_point h"
    "num_le (lat (points h sw2)) (lat (points h ne2))"
    "num_le (lng (points h sw2)) (lng (points h ne2))"
    by (auto simp: defined_bounds_def split: option.splits)
  show ?thesis
    using extend_corners_states [OF assms(1) c(3-6)] c(1,2)
    by (simp add: extend.simps extend_LatLngBounds_def)
qed

lemma extend_pair_states:
  assumes "empty_bounds h b \<or> defined_bounds h b" and "x \<noteq> NaN" and "y \<noteq> NaN"
  shows "fst (extend b (Arr [Num x, Num y]) h) = Inr ()
         \<and> defined_bounds (snd (extend b (Arr [Num x, Num y]) h)) b"
proof -
  define h1 where "h1 = snd (alloc_LatLng (Num x) (Num y) Undefined h)"
  have made: "new_LatLng (Arr [Num x, Num y]) Undefined Undefined h = (Inr (next_point h), h1)"
    by (simp add: new_LatLng_def elem_def h1_def alloc_LatLng_result)
  have p: "number_point h1 (next_point h)"
    using assms(2,3) by (simp add: h1_def alloc_LatLng_result number_point_def)
  have state: "empty_bounds h1 b \<or> defined_bounds h1 b"
    using assms(1)
    by (auto simp: h1_def alloc_LatLng_result empty_bounds_def defined_bounds_def
          split: option.splits)
  have "extend b (Arr [Num x, Num y]) h = extend b (PointRef (next_point h)) h1"
    by (simp add: extend.simps made elem_def)
  then show ?thesis
    using extend_point_states [OF state p] by simp
qed

lemma extend_keeps_corners:
  assumes "b < next_rect h" and "isValid h b"
  shows "isValid (snd (extend b obj h)) b"
  using extend_frame_all(1) [of b h obj] assms
  by (auto simp: rects_frame_def isValid_def)

text \<open>
  C3. The code breaks the claim at one kind of argument: an array that holds NaN. On the
  bounds \<open>[0,0]-[10,10]\<close>, which is in the defined state, \<open>extend([NaN, 0])\<close> returns, and
  afterwards the bounds has both corners set, so \<open>isValid\<close> is true, with south and north
  NaN: it is neither empty nor ordered. The other paths of the code reject the same
  value: \<open>new LatLng(NaN, 0)\<close> throws ``Invalid LatLng object'', and so does
  \<open>extend([NaN, 0])\<close> on an empty bounds, which builds its corners with the constructor
  for two numbers.
\<close>

theorem extend_NaN_pair_breaks_states:
  "defined_bounds two_squares 0
   \<and> fst (extend 0 (Arr [Num NaN, Num (Fin 0)]) two_squares) = Inr ()
   \<and> getSouth (snd (extend 0 (Arr [Num NaN, Num (Fin 0)]) two_squares)) 0 = Inr NaN
   \<and> getNorth (snd (extend 0 (Arr [Num NaN, Num (Fin 0)]) two_squares)) 0 = Inr NaN
   \<and> isValid (snd (extend 0 (Arr [Num NaN, Num (Fin 0)]) two_squares)) 0
   \<and> \<not> empty_bounds (snd (extend 0 (Arr [Num NaN, Num (Fin 0)]) two_squares)) 0
   \<and> \<not> defined_bounds (snd (extend 0 (Arr [Num NaN, Num (Fin 0)]) two_squares)) 0
   \<and> fst (new_LatLng (Num NaN) (Num (Fin 0)) Undefined two_squares) = Inl InvalidLatLng
   \<and> empty_bounds three_points 0
   \<and> fst (extend 0 (Arr [Num NaN, Num (Fin 0)]) three_points) = Inl InvalidLatLng"
proof -
  have "defined_bounds two_squares 0
   \<and> fst (extend 0 (Arr [Num NaN, Num (Fin 0)]) two_squares) = Inr ()
   \<and> getSouth (snd (extend 0 (Arr [Num NaN, Num (Fin 0)]) two_squares)) 0 = Inr NaN
   \<and> getNorth (snd (extend 0 (Arr [Num NaN, Num (Fin 0)]) two_squares)) 0 = Inr NaN
   \<and> isValid (snd (extend 0 (Arr [Num NaN, Num (Fin 0)]) two_squares)) 0
   \<and> \<not> empty_bounds (snd (extend 0 (Arr [Num NaN, Num (Fin 0)]) two_squares)) 0
   \<and> \<not> defined_bounds (snd (extend 0 (Arr [Num NaN, Num (Fin 0)]) two_squares)) 0"
    by (simp add: extend.simps new_LatLng_def elem_def alloc_LatLng_result extend_corners_def
        Let_def set_lat_def set_lng_def two_squares_facts defined_bounds_def empty_bounds_def
        isValid_def getSouth_def getNorth_def Math_min_def Math_max_def)
  moreover have "fst (new_LatLng (Num NaN) (Num (Fin 0)) Undefined two_squares) = Inl InvalidLatLng"
    by (simp add: new_LatLng_numbers)
  moreover have "empty_bounds three_points 0"
    by (simp add: empty_bounds_def three_points_facts)
  moreover have "fst (extend 0 (Arr [Num NaN, Num (Fin 0)]) three_points) = Inl InvalidLatLng"
    by (simp add: extend.simps new_LatLng_def elem_def alloc_LatLng_result extend_corners_def
        Let_def three_points_facts empty_bounds_def)
  ultimately show ?thesis
    by simp
qed

text \<open>
  Apart from NaN the two states are kept. A bounds is never both empty and defined;
  \<open>new LatLngBounds()\<close> returns an empty one, and a defined one has both corners set, with
  south at most north and west at most east. From either state, \<open>extend\<close> returns and
  leaves the bounds defined when its argument is a point whose \<open>lat\<close> and \<open>lng\<close> are not
  NaN, an array of two such numbers, or a defined bounds; \<open>extend\<close> with an empty bounds or
  with \<open>undefined\<close> changes nothing. Whatever its argument, and also when it throws,
  \<open>extend\<close> never unsets the corners of a bounds that has both.
\<close>

lemma extend_preserves_states:
  "\<not> (empty_bounds h b \<and> defined_bounds h b)
   \<and> fst (new_LatLngBounds Undefined Undefined h) = Inr (next_rect h)
   \<and> empty_bounds (snd (new_LatLngBounds Undefined Undefined h)) (next_rect h)
   \<and> (defined_bounds h b \<longrightarrow>
        isValid h b
        \<and> (\<exists>s w n e. getSouth h b = Inr s \<and> getWest h b = Inr w
               \<and> getNorth h b = Inr n \<and> getEast h b = Inr e \<and> num_le s n \<and> num_le w e))
   \<and> ((empty_bounds h b \<or> defined_bounds h b) \<and> number_point h p \<longrightarrow>
        fst (extend b (PointRef p) h) = Inr ()
        \<and> defined_bounds (snd (extend b (PointRef p) h)) b)
   \<and> ((empty_bounds h b \<or> defined_bounds h b) \<and> x \<noteq> NaN \<and> y \<noteq> NaN \<longrightarrow>
        fst (extend b (Arr [Num x, Num y]) h) = Inr ()
        \<and> defined_bounds (snd (extend b (Arr [Num x, Num y]) h)) b)
   \<and> ((empty_bounds h b \<or> defined_bounds h b) \<and> defined_bounds h c \<longrightarrow>
        fst (extend b (BoundsRef c) h) = Inr ()
        \<and> defined_bounds (snd (extend b (BoundsRef c) h)) b)
   \<and> (empty_bounds h c \<longrightarrow> extend b (BoundsRef c) h = (Inr (), h))
   \<and> extend b Undefined h = (Inr (), h)
   \<and> (b < next_rect h \<and> isValid h b \<longrightarrow> isValid (snd (extend b obj h)) b)"
proof -
  have exclusive: "\<not> (empty_bounds h b \<and> defined_bounds h b)"
    by (auto simp: empty_bounds_def defined_bounds_def)
  have fresh: "fst (new_LatLngBounds Undefined Undefined h) = Inr (next_rect h)"
      "empty_bounds (snd (new_LatLngBounds Undefined Undefined h)) (next_rect h)"
    by (simp_all add: new_LatLngBounds.simps alloc_LatLngBounds_def Let_def empty_bounds_def)
  have ordered: "defined_bounds h b \<longrightarrow>
        isValid h b
        \<and> (\<exists>s w n e. getSouth h b = Inr s \<and> getWest h b = Inr w
               \<and> getNorth h b = Inr n \<and> getEast h b = Inr e \<and> num_le s n \<and> num_le w e)"
    by (auto simp: defined_bounds_def isValid_def getSouth_def getWest_def getNorth_def
          getEast_def split: option.splits)
  have by_point:
    "(empty_bounds h b \<or> defined_bounds h b) \<and> number_point h p \<longrightarrow>
        fst (extend b (PointRef p) h) = Inr ()
        \<and> defined_bounds (snd (extend b (PointRef p) h)) b"
    using extend_point_states [of h b p] by blast
  have by_pair:
    "(empty_bounds h b \<or> defined_bounds h b) \<and> x \<noteq> NaN \<and> y \<noteq> NaN \<longrightarrow>
        fst (extend b (Arr [Num x, Num y]) h) = Inr ()
        \<and> defined_bounds (snd (extend b (Arr [Num x, Num y]) h)) b"
    using extend_pair_states [of h b x y] by blast
  have by_bounds:
    "(empty_bounds h b \<or> defined_bounds h b) \<and> defined_bounds h c \<longrightarrow>
        fst (extend b (BoundsRef c) h) = Inr ()
        \<and> defined_bounds (snd (extend b (BoundsRef c) h)) b"
    using extend_bounds_states [of h b c] by blast
  have noop: "empty_bounds h c \<longrightarrow> extend b (BoundsRef c) h = (Inr (), h)"
    by (simp add: extend.simps extend_LatLngBounds_def empty_bounds_def)
  have absent: "extend b Undefined h = (Inr (), h)"
    by (simp add: extend.simps)
  have kept: "b < next_rect h \<and> isValid h b \<longrightarrow> isValid (snd (extend b obj h)) b"
    using extend_keeps_corners [of b h obj] by blast
  show ?thesis
    by (rule conjI [OF exclusive conjI [OF fresh(1) conjI [OF fresh(2) conjI [OF ordered
          conjI [OF by_point conjI [OF by_pair conjI [OF by_bounds
          conjI [OF noop conjI [OF absent kept]]]]]]]]])
qed

end
